theory Spec2Isabelle
  imports Main "HOL-Library.Sublist"
begin

section \<open>The AI full-lifecycle bridge (src/ai\_bridge.py)\<close>

text \<open>
  The bridge is one Python class, \<open>AIFullLifecycleBridge\<close>, whose entry point
  \<open>execute_ai_instruction\<close> dispatches on an action string to ten handlers. Every
  handler talks to the operating system: the file system, a shell, an HTTP client, the
  clock. The embedding keeps the class as it is written and makes the collaborators
  explicit:
  \<^item> the object's fields, the process's working directory and the file system form the
    record \<open>world\<close>, passed through every method;
  \<^item> the shell, the HTTP client and the clock are the fields of the record \<open>env\<close>,
    a parameter of every method, about which nothing is assumed; the clock gives a
    reading for each time it is read, and the world counts the readings made;
  \<^item> an exception is a value of \<open>exn\<close>; a method is a function from the world to a
    result (\<open>Inl\<close> an exception, \<open>Inr\<close> a value) and the world at that moment, so
    that what a method changed before it raised is kept;
  \<^item> a shell command is run without a timeout and may never return: \<open>Hang\<close> stands
    for that, passes every \<open>except\<close> clause, and leaves the dispatcher with the
    reply \<open>Hung\<close> instead of a result;
  \<^item> Python's \<open>None\<close> result of the dispatcher is \<open>None :: string option\<close>.
  Strings are byte lists: a string of Python is its UTF-8 encoding, and so is a character
  beyond ASCII in a literal of the source. A string with a lone surrogate has no
  encoding; Python cannot write it to a file (\<open>UnicodeEncodeError\<close>), and it is not
  among the strings here. \<open>print\<close> calls are left out: no method reads standard
  output.
\<close>

subsection \<open>Text\<close>

definition check_mark :: string where
  \<comment> \<open>U+2705\<close>
  "check_mark = [CHR 0xE2, CHR 0x9C, CHR 0x85]"

definition cross_mark :: string where
  \<comment> \<open>U+274C\<close>
  "cross_mark = [CHR 0xE2, CHR 0x9D, CHR 0x8C]"

definition magnifier :: string where
  \<comment> \<open>U+1F50D\<close>
  "magnifier = [CHR 0xF0, CHR 0x9F, CHR 0x94, CHR 0x8D]"

definition test_tube :: string where
  \<comment> \<open>U+1F9EA\<close>
  "test_tube = [CHR 0xF0, CHR 0x9F, CHR 0xA7, CHR 0xAA]"

definition floppy_disk :: string where
  \<comment> \<open>U+1F4BE\<close>
  "floppy_disk = [CHR 0xF0, CHR 0x9F, CHR 0x92, CHR 0xBE]"

text \<open>\<open>str\<close> of a Python integer, as an f-string renders a status code.\<close>

fun str_nat :: "nat \<Rightarrow> string" where
  "str_nat n =
     (if n < 10 then [''0123456789'' ! n]
      else str_nat (n div 10) @ [''0123456789'' ! (n mod 10)])"

declare str_nat.simps [simp del]

definition str_int :: "int \<Rightarrow> string" where
  "str_int i = (if i < 0 then ''-'' @ str_nat (nat (- i)) else str_nat (nat i))"

subsection \<open>Exceptions\<close>

text \<open>
  \<open>repr\<close> of a Python string: between single quotes, or between double quotes when
  the string holds a single quote and no double quote; the quote in use and the
  backslash are escaped, and so are the control characters of ASCII. A byte beyond
  ASCII is kept as it is: the characters it helps encode are taken to be printable.
\<close>

definition hex_digit :: "nat \<Rightarrow> char" where
  "hex_digit n = ''0123456789abcdef'' ! (n mod 16)"

definition escaped :: "char \<Rightarrow> char \<Rightarrow> string" where
  "escaped q c =
     (if c = q \<or> c = CHR 0x5C then [CHR 0x5C, c]
      else if c = CHR 0x0A then [CHR 0x5C, CHR ''n'']
      else if c = CHR 0x0D then [CHR 0x5C, CHR ''r'']
      else if c = CHR 0x09 then [CHR 0x5C, CHR ''t'']
      else if (of_char c :: nat) < 32 \<or> c = CHR 0x7F
        then [CHR 0x5C, CHR ''x'', hex_digit (of_char c div 16), hex_digit (of_char c)]
      else [c])"

definition py_repr :: "string \<Rightarrow> string" where
  "py_repr s =
     (let q = (if CHR 0x27 \<in> set s \<and> CHR 0x22 \<notin> set s then CHR 0x22 else CHR 0x27)
      in [q] @ concat (map (escaped q) s) @ [q])"

text \<open>
  \<open>KeyError k\<close> is what \<open>payload[k]\<close> raises for a missing key; \<open>OSError n msg name\<close>
  is an operating-system error with its errno, message and file name; \<open>Raised txt\<close>
  is any other exception of class \<open>Exception\<close>, with its \<open>str\<close>. \<open>Hang\<close> is no
  exception of Python: it is the outcome of a call that never returns, or that only
  ends when the process is interrupted, which no \<open>except Exception\<close> catches.
  \<open>str_exn\<close> is Python's \<open>str(e)\<close>: for a \<open>KeyError\<close> the \<open>repr\<close> of the key,
  for an \<open>OSError\<close> the errno, the message and the \<open>repr\<close> of the file name.
\<close>

datatype exn = KeyError string | OSError nat string string | Raised string | Hang

fun str_exn :: "exn \<Rightarrow> string" where
  "str_exn (KeyError k) = py_repr k"
| "str_exn (OSError n msg name) = ''[Errno '' @ str_nat n @ ''] '' @ msg @ '': '' @ py_repr name"
| "str_exn (Raised txt) = txt"
| "str_exn Hang = []"

definition ENOENT :: "string \<Rightarrow> exn" where
  "ENOENT name = OSError 2 ''No such file or directory'' name"

definition EEXIST :: "string \<Rightarrow> exn" where
  "EEXIST name = OSError 17 ''File exists'' name"

definition ENOTDIR :: "string \<Rightarrow> exn" where
  "ENOTDIR name = OSError 20 ''Not a directory'' name"

definition EISDIR :: "string \<Rightarrow> exn" where
  "EISDIR name = OSError 21 ''Is a directory'' name"

text \<open>The \<open>ValueError\<close> of a path string that holds a NUL byte.\<close>

definition EMBEDDED_NUL :: exn where
  "EMBEDDED_NUL = Raised ''embedded null byte''"

subsection \<open>The file system\<close>

text \<open>
  A POSIX file system without links, permissions or quotas: a partial map from
  absolute paths, as lists of names from the root, to directories and regular files.
  A path string is cut at its slashes; \<open>.\<close> and \<open>..\<close> are followed name by name as
  the kernel does, and every name that is passed through must be a directory.
\<close>

type_synonym path = "string list"

datatype node = Dir | File string

type_synonym filesystem = "path \<Rightarrow> node option"

fun segments :: "string \<Rightarrow> string list" where
  "segments [] = [[]]"
| "segments (c # cs) =
     (if c = CHR ''/'' then [] # segments cs
      else (case segments cs of [] \<Rightarrow> [[c]] | s # ss \<Rightarrow> (c # s) # ss))"

definition components :: "string \<Rightarrow> string list" where
  "components name = filter (\<lambda>s. s \<noteq> []) (segments name)"

definition start_dir :: "path \<Rightarrow> string \<Rightarrow> path" where
  "start_dir cwd name = (if name \<noteq> [] \<and> hd name = CHR ''/'' then [] else cwd)"

definition walk_step :: "path \<Rightarrow> string \<Rightarrow> path" where
  "walk_step cur c = (if c = ''.'' then cur else if c = ''..'' then butlast cur else cur @ [c])"

text \<open>The place a path string names, before any check that the way there exists.\<close>

definition target :: "path \<Rightarrow> string \<Rightarrow> path" where
  "target cwd name = foldl walk_step (start_dir cwd name) (components name)"

fun resolve :: "filesystem \<Rightarrow> string \<Rightarrow> path \<Rightarrow> string list \<Rightarrow> exn + path" where
  "resolve fs name cur [] = Inr cur"
| "resolve fs name cur (c # cs) =
     (case fs cur of
        Some Dir \<Rightarrow> resolve fs name (walk_step cur c) cs
      | Some (File _) \<Rightarrow> Inl (ENOTDIR name)
      | None \<Rightarrow> Inl (ENOENT name))"

definition resolve_path :: "filesystem \<Rightarrow> path \<Rightarrow> string \<Rightarrow> exn + path" where
  "resolve_path fs cwd name =
     (if name = [] then Inl (ENOENT name)
      else resolve fs name (start_dir cwd name) (components name))"

text \<open>
  The slot \<open>open(name, 'w')\<close> or \<open>open(name, 'a')\<close> writes to: the name holds no
  NUL byte (\<open>ValueError\<close>, before the file system is looked at), the way to it exists,
  it is no directory, and the name does not end in a slash.
\<close>

definition has_nul :: "string \<Rightarrow> bool" where
  "has_nul s = (CHR 0x00 \<in> set s)"

definition open_target :: "filesystem \<Rightarrow> path \<Rightarrow> string \<Rightarrow> exn + path" where
  "open_target fs cwd name =
     (if has_nul name then Inl EMBEDDED_NUL
      else case resolve_path fs cwd name of
        Inl e \<Rightarrow> Inl e
      | Inr p \<Rightarrow> if fs p = Some Dir \<or> last name = CHR ''/'' then Inl (EISDIR name) else Inr p)"

text \<open>
  \<open>open(name).read()\<close>, the read the round trip of \<open>create_file\<close> is checked with.
  A file opened in text mode is read with universal newlines: a carriage return, alone
  or before a line feed, comes out as one line feed. Every file of this program is
  written in text mode from a string, so what is read can be decoded.
\<close>

fun universal_newlines :: "string \<Rightarrow> string" where
  "universal_newlines [] = []"
| "universal_newlines [c] = (if c = CHR 0x0D then [CHR 0x0A] else [c])"
| "universal_newlines (c # d # cs) =
     (if c = CHR 0x0D \<and> d = CHR 0x0A then CHR 0x0A # universal_newlines cs
      else if c = CHR 0x0D then CHR 0x0A # universal_newlines (d # cs)
      else c # universal_newlines (d # cs))"

definition read_text :: "filesystem \<Rightarrow> path \<Rightarrow> string \<Rightarrow> exn + string" where
  "read_text fs cwd name =
     (if has_nul name then Inl EMBEDDED_NUL
      else case resolve_path fs cwd name of
        Inl e \<Rightarrow> Inl e
      | Inr p \<Rightarrow>
          (case fs p of
             Some (File c) \<Rightarrow>
               if last name = CHR ''/'' then Inl (ENOTDIR name) else Inr (universal_newlines c)
           | Some Dir \<Rightarrow> Inl (EISDIR name)
           | None \<Rightarrow> Inl (ENOENT name)))"

text \<open>
  \<open>os.makedirs(name, exist_ok=True)\<close> goes along the names of the path, from the
  directory the path starts in, and makes a directory of every name that is missing;
  what it has made stays when it raises. It raises on the first name that holds a NUL
  byte (\<open>ValueError\<close>) and at a regular file on the way: \<open>FileExistsError\<close> for the
  whole path when the file is its last name, else \<open>NotADirectoryError\<close> for the path
  up to the name after the file, which \<open>name_upto\<close> cuts out of the string. One case
  is particular to \<open>makedirs\<close>: when it has already made a directory on this way,
  it passes over a regular file that is followed by \<open>.\<close> and goes on to the next
  name that is not \<open>.\<close>; when there is none it returns. The empty path raises
  \<open>FileNotFoundError\<close>, and so does a path whose starting directory is not there;
  the bridge passes absolute paths only, which start at the root.
\<close>

fun upto_component :: "nat \<Rightarrow> bool \<Rightarrow> string \<Rightarrow> string" where
  "upto_component k inside [] = []"
| "upto_component k inside (c # cs) =
     (if c \<noteq> CHR ''/'' then c # upto_component k True cs
      else if inside \<and> k \<le> 1 then []
      else c # upto_component (if inside then k - 1 else k) False cs)"

definition name_upto :: "string \<Rightarrow> nat \<Rightarrow> string" where
  "name_upto name k = upto_component k False name"

definition not_a_directory :: "string \<Rightarrow> nat \<Rightarrow> string list \<Rightarrow> exn" where
  "not_a_directory name k cs =
     (if has_nul (hd cs) then EMBEDDED_NUL else ENOTDIR (name_upto name k))"

fun mkdir_p ::
  "filesystem \<Rightarrow> string \<Rightarrow> nat \<Rightarrow> bool \<Rightarrow> path \<Rightarrow> string list \<Rightarrow> exn option \<times> filesystem" where
  "mkdir_p fs name i made cur [] = (None, fs)"
| "mkdir_p fs name i made cur (c # cs) =
     (if has_nul c then (Some EMBEDDED_NUL, fs)
      else
        let nxt = walk_step cur c in
        case fs nxt of
          Some Dir \<Rightarrow> mkdir_p fs name (Suc i) made nxt cs
        | None \<Rightarrow> mkdir_p (fs(nxt \<mapsto> Dir)) name (Suc i) True nxt cs
        | Some (File _) \<Rightarrow>
            if cs = [] then (Some (EEXIST name), fs)
            else if made then
              (let dots = takeWhile (\<lambda>c. c = ''.'') cs; rest = dropWhile (\<lambda>c. c = ''.'') cs
               in if rest = [] then (None, fs)
                  else (Some (not_a_directory name (i + 2 + length dots) rest), fs))
            else (Some (not_a_directory name (i + 2) cs), fs))"

definition makedirs :: "filesystem \<Rightarrow> path \<Rightarrow> string \<Rightarrow> exn option \<times> filesystem" where
  "makedirs fs cwd name =
     (if name = [] \<or> fs (start_dir cwd name) \<noteq> Some Dir then (Some (ENOENT name), fs)
      else mkdir_p fs name 0 False (start_dir cwd name) (components name))"

text \<open>\<open>os.path.join\<close> of two strings and \<open>os.path.dirname\<close>, as in \<open>posixpath\<close>.\<close>

definition os_path_join :: "string \<Rightarrow> string \<Rightarrow> string" where
  "os_path_join a b =
     (if b \<noteq> [] \<and> hd b = CHR ''/'' then b
      else if a = [] \<or> last a = CHR ''/'' then a @ b
      else a @ ''/'' @ b)"

definition os_path_dirname :: "string \<Rightarrow> string" where
  "os_path_dirname p =
     (let head = rev (dropWhile (\<lambda>c. c \<noteq> CHR ''/'') (rev p))
      in if head \<noteq> [] \<and> \<not> list_all (\<lambda>c. c = CHR ''/'') head
         then rev (dropWhile (\<lambda>c. c = CHR ''/'') (rev head))
         else head)"

text \<open>\<open>os.getcwd()\<close>: the working directory as an absolute path string.\<close>

definition os_getcwd :: "path \<Rightarrow> string" where
  "os_getcwd cwd = (if cwd = [] then ''/'' else concat (map (\<lambda>c. ''/'' @ c) cwd))"

subsection \<open>The environment and the world\<close>

text \<open>
  \<open>subprocess.run(command, shell=True, capture_output=True, text=True, cwd=d)\<close> is
  the field \<open>shell\<close>: from the command, the directory and the file system it gives
  the file system the command left and either the completed process or what
  \<open>subprocess.run\<close> raised; it is \<open>Hang\<close> when the command does not return, for
  the call sets no timeout. \<open>requests.get(url, timeout=10)\<close> is the field
  \<open>http_get\<close>. The clock is read by \<open>datetime.now()\<close>: at reading number \<open>n\<close>
  of the process, \<open>now n\<close> is \<open>str(datetime.now())\<close> and \<open>stamp n\<close> is
  \<open>datetime.now().strftime("%Y%m%d_%H%M%S")\<close>.
\<close>

record completed_process =
  returncode :: int
  stdout :: string
  stderr :: string

datatype http_outcome = Response int | RequestFailed string

record env =
  shell :: "string \<Rightarrow> string \<Rightarrow> filesystem \<Rightarrow> (exn + completed_process) \<times> filesystem"
  http_get :: "string \<Rightarrow> http_outcome"
  now :: "nat \<Rightarrow> string"
  stamp :: "nat \<Rightarrow> string"

text \<open>
  The three fields of the object (\<open>__init__\<close>, lines 17 to 19), the number of poll
  threads started so far, the working directory of the process, the file system, and
  the number of times the process has read the clock.
\<close>

record world =
  repo_path :: string
  deployment_url :: "string option"
  monitoring_active :: bool
  poll_threads :: nat
  cwd :: path
  fs :: filesystem
  clock :: nat

type_synonym 'a prog = "world \<Rightarrow> (exn + 'a) \<times> world"

definition returnE :: "'a \<Rightarrow> 'a prog" where
  "returnE x = (\<lambda>w. (Inr x, w))"

definition raiseE :: "exn \<Rightarrow> 'a prog" where
  "raiseE e = (\<lambda>w. (Inl e, w))"

definition bindE :: "'a prog \<Rightarrow> ('a \<Rightarrow> 'b prog) \<Rightarrow> 'b prog" where
  "bindE m k = (\<lambda>w. case m w of (Inl e, w') \<Rightarrow> (Inl e, w') | (Inr x, w') \<Rightarrow> k x w')"

text \<open>\<open>with open(name, 'w') as f: f.write(content)\<close>.\<close>

definition open_write :: "string \<Rightarrow> string \<Rightarrow> unit prog" where
  "open_write name content =
     (\<lambda>w. case open_target (fs w) (cwd w) name of
        Inl e \<Rightarrow> (Inl e, w)
      | Inr p \<Rightarrow> (Inr (), w\<lparr>fs := (fs w)(p \<mapsto> File content)\<rparr>))"

definition os_makedirs :: "string \<Rightarrow> unit prog" where
  "os_makedirs name =
     (\<lambda>w. case makedirs (fs w) (cwd w) name of
        (Some e, fs') \<Rightarrow> (Inl e, w\<lparr>fs := fs'\<rparr>)
      | (None, fs') \<Rightarrow> (Inr (), w\<lparr>fs := fs'\<rparr>))"

definition subprocess_run :: "env \<Rightarrow> string \<Rightarrow> completed_process prog" where
  "subprocess_run env command =
     (\<lambda>w. case shell env command (repo_path w) (fs w) of
        (result, fs') \<Rightarrow> (result, w\<lparr>fs := fs'\<rparr>))"

text \<open>
  \<open>datetime.now().strftime("%Y%m%d_%H%M%S")\<close>: the reading that is due, and one more
  reading made.
\<close>

definition strftime_now :: "env \<Rightarrow> string prog" where
  "strftime_now env = (\<lambda>w. (Inr (stamp env (clock w)), w\<lparr>clock := Suc (clock w)\<rparr>))"

subsection \<open>The methods of the bridge\<close>

text \<open>
  \<open>log_status\<close>, lines 29 to 31: the file is opened in mode \<open>'a'\<close>, then the clock
  is read, and one record goes after what the file holds: the reading, the status and a
  newline.
\<close>

definition log_name :: string where
  "log_name = ''ai_lifecycle.log''"

definition log_line :: "env \<Rightarrow> nat \<Rightarrow> string \<Rightarrow> string" where
  "log_line env n status = now env n @ '': '' @ status @ ''\<newline>''"

definition log_status :: "env \<Rightarrow> string \<Rightarrow> unit prog" where
  "log_status env status =
     (\<lambda>w. case open_target (fs w) (cwd w) log_name of
        Inl e \<Rightarrow> (Inl e, w)
      | Inr p \<Rightarrow>
          (Inr (),
           w\<lparr>fs := (fs w)(p \<mapsto>
                File ((case fs w p of Some (File old) \<Rightarrow> old | _ \<Rightarrow> []) @
                      log_line env (clock w) status)),
             clock := Suc (clock w)\<rparr>))"

text \<open>\<open>create_file\<close>, lines 69 to 78.\<close>

definition create_file :: "env \<Rightarrow> string \<Rightarrow> string \<Rightarrow> string prog" where
  "create_file env filepath content =
     (\<lambda>w. let full_path = os_path_join (repo_path w) filepath in
        bindE (os_makedirs (os_path_dirname full_path)) (\<lambda>_.
        bindE (open_write full_path content) (\<lambda>_.
        bindE (log_status env (''FILE_CREATED: '' @ filepath)) (\<lambda>_.
        returnE (check_mark @ '' Created: '' @ filepath)))) w)"

text \<open>\<open>run_command\<close>, lines 80 to 85. The return code of the process is not read.\<close>

definition run_command :: "env \<Rightarrow> string \<Rightarrow> string prog" where
  "run_command env command =
     bindE (subprocess_run env command) (\<lambda>result.
     let output =
           (if stdout result \<noteq> [] \<or> stderr result \<noteq> []
            then ''OUT: '' @ stdout result @ ''\<newline>ERR: '' @ stderr result
            else ''Command executed'')
     in bindE (log_status env (''COMMAND_RUN: '' @ command)) (\<lambda>_. returnE output))"

text \<open>
  \<open>deploy_project\<close>, lines 87 to 108. The f-string of each branch reads the field
  that the line before has just assigned.
\<close>

definition set_deployment_url :: "string \<Rightarrow> string prog" where
  "set_deployment_url url = (\<lambda>w. (Inr url, w\<lparr>deployment_url := Some url\<rparr>))"

definition deploy_project :: "env \<Rightarrow> string \<Rightarrow> string prog" where
  "deploy_project env deploy_type =
     bindE (log_status env (''DEPLOYMENT_STARTED: '' @ deploy_type)) (\<lambda>_.
     if deploy_type = ''github_pages'' then
       bindE (run_command env ''gh pages deploy --branch main'') (\<lambda>result.
       bindE (set_deployment_url ''https://yourusername.github.io/your-repo'') (\<lambda>url.
       returnE (check_mark @ '' GitHub Pages Deployed: '' @ url)))
     else if deploy_type = ''docker'' then
       bindE (run_command env ''docker build -t app . && docker run -d -p 3000:3000 app'') (\<lambda>result.
       bindE (set_deployment_url ''http://localhost:3000'') (\<lambda>url.
       returnE (check_mark @ '' Docker Deployed: '' @ url)))
     else if deploy_type = ''vercel'' then
       bindE (run_command env ''npx vercel --prod'') (\<lambda>result.
       bindE (set_deployment_url ''https://your-app.vercel.app'') (\<lambda>url.
       returnE (check_mark @ '' Vercel Deployed: '' @ url)))
     else returnE (check_mark @ '' Deployment initiated: '' @ deploy_type))"

text \<open>
  \<open>check_application_health\<close>, lines 127 to 139. \<open>not self.deployment_url\<close> holds
  for \<open>None\<close> and for the empty string. The \<open>try\<close> around the request catches
  every exception, so the method never raises.
\<close>

definition check_application_health :: "env \<Rightarrow> string prog" where
  "check_application_health env =
     (\<lambda>w. case deployment_url w of
        None \<Rightarrow> returnE ''No deployment URL set'' w
      | Some url \<Rightarrow>
          if url = [] then returnE ''No deployment URL set'' w
          else (case http_get env url of
                  Response status_code \<Rightarrow>
                    if status_code = 200 then returnE (check_mark @ '' Application healthy'') w
                    else returnE (cross_mark @ '' Application issue: HTTP '' @ str_int status_code) w
                | RequestFailed e \<Rightarrow> returnE (cross_mark @ '' Application error: '' @ e) w))"

text \<open>
  \<open>start_monitoring\<close>, lines 110 to 125, starts a thread that runs \<open>monitor\<close>. One
  pass of the loop body is \<open>monitor_iteration\<close>; \<open>"ERROR" in health\<close> is
  \<open>sublist\<close>. The loop itself is \<open>monitor\<close>: it takes the environment of each
  poll and stops when the flag is clear, when the polls observed are used up, or when
  the body raises (which ends the thread).
\<close>

definition monitor_iteration :: "env \<Rightarrow> unit prog" where
  "monitor_iteration env =
     bindE (check_application_health env) (\<lambda>health.
     if sublist ''ERROR'' health then log_status env (''HEALTH_ISSUE: '' @ health)
     else returnE ())"

fun monitor :: "env list \<Rightarrow> unit prog" where
  "monitor [] = returnE ()"
| "monitor (env # envs) =
     (\<lambda>w. if monitoring_active w then bindE (monitor_iteration env) (\<lambda>_. monitor envs) w
          else returnE () w)"

definition start_monitoring :: "env \<Rightarrow> string \<Rightarrow> string prog" where
  "start_monitoring env url =
     (\<lambda>w. (Inr (magnifier @ '' Monitoring started: '' @ url),
            w\<lparr>deployment_url := Some url, monitoring_active := True,
              poll_threads := Suc (poll_threads w)\<rparr>))"

text \<open>\<open>auto_fix_issues\<close>, lines 141 to 160.\<close>

definition auto_fix_issues :: "env \<Rightarrow> string \<Rightarrow> string prog" where
  "auto_fix_issues env issue_type =
     bindE (log_status env (''AUTO_FIXING: '' @ issue_type)) (\<lambda>_.
     if issue_type = ''build_failure'' then
       bindE (run_command env ''npm install || pip install -r requirements.txt'') (\<lambda>_.
       returnE (check_mark @ '' Build dependencies fixed''))
     else if issue_type = ''deployment_failure'' then
       deploy_project env ''github_pages''
     else if issue_type = ''database_connection'' then
       bindE (create_file env ''config/fix_database.py''
                (''import sqlite3\<newline># AI-generated database fix\<newline>'' @
                 ''conn = sqlite3.connect('app.db')\<newline>print('Database fixed')'')) (\<lambda>_.
       returnE (check_mark @ '' Database issues addressed''))
     else returnE (check_mark @ '' Auto-fix attempted for: '' @ issue_type))"

text \<open>
  \<open>add_feature\<close>, lines 162 to 171. \<open>create_files\<close> is the \<open>for\<close> loop over
  \<open>files.items()\<close>, in the order of the dictionary.
\<close>

fun create_files :: "env \<Rightarrow> (string \<times> string) list \<Rightarrow> unit prog" where
  "create_files env [] = returnE ()"
| "create_files env ((file_path, content) # rest) =
     bindE (create_file env file_path content) (\<lambda>_. create_files env rest)"

definition add_feature :: "env \<Rightarrow> string \<Rightarrow> (string \<times> string) list \<Rightarrow> string prog" where
  "add_feature env feature_name files =
     bindE (log_status env (''ADDING_FEATURE: '' @ feature_name)) (\<lambda>_.
     bindE (create_files env files) (\<lambda>_.
     bindE (deploy_project env ''github_pages'') (\<lambda>_.
     returnE (check_mark @ '' Feature '' @ [CHR 0x27] @ feature_name @ [CHR 0x27] @
              '' added and deployed''))))"

text \<open>\<open>run_tests\<close>, \<open>backup_project\<close> and \<open>git_commit\<close>, lines 173 to 190.\<close>

definition run_tests :: "env \<Rightarrow> string prog" where
  "run_tests env =
     bindE (run_command env (''python -m pytest || npm test || echo '' @
                            [CHR 0x27] @ ''No tests found'' @ [CHR 0x27])) (\<lambda>result.
     returnE (test_tube @ '' Tests executed: '' @ result))"

definition backup_project :: "env \<Rightarrow> string prog" where
  "backup_project env =
     bindE (strftime_now env) (\<lambda>timestamp.
     bindE (run_command env (''git tag backup-'' @ timestamp)) (\<lambda>_.
     bindE (run_command env ''git push --tags'') (\<lambda>_.
     returnE (floppy_disk @ '' Backup created: backup-'' @ timestamp))))"

definition git_commit :: "env \<Rightarrow> string \<Rightarrow> string prog" where
  "git_commit env message =
     bindE (run_command env ''git add .'') (\<lambda>_.
     bindE (run_command env (''git commit -m '' @ [CHR 0x22] @ message @ [CHR 0x22])) (\<lambda>_.
     bindE (run_command env ''git push origin main'') (\<lambda>_.
     returnE (check_mark @ '' Committed: '' @ message))))"

subsection \<open>The dispatcher\<close>

text \<open>
  A payload is the dictionary of one instruction. Its values are strings, except under
  the key \<open>files\<close>, whose value is a dictionary from file paths to contents, kept in
  the order of its items. \<open>item\<close> and \<open>item_files\<close> are \<open>payload[key]\<close>.
\<close>

record payload =
  strings :: "string \<rightharpoonup> string"
  files :: "(string \<times> string) list option"

definition has_key :: "payload \<Rightarrow> string \<Rightarrow> bool" where
  "has_key p k = (if k = ''files'' then files p \<noteq> None else strings p k \<noteq> None)"

definition item :: "payload \<Rightarrow> string \<Rightarrow> string prog" where
  "item p k = (case strings p k of None \<Rightarrow> raiseE (KeyError k) | Some v \<Rightarrow> returnE v)"

definition item_files :: "payload \<Rightarrow> (string \<times> string) list prog" where
  "item_files p = (case files p of None \<Rightarrow> raiseE (KeyError ''files'') | Some v \<Rightarrow> returnE v)"

text \<open>
  The body of the \<open>try\<close>, lines 36 to 64. The arguments of a handler are looked up
  from left to right before the handler is called. When no branch matches, the
  method falls off its end and the result is \<open>None\<close>.
\<close>

definition try_body :: "env \<Rightarrow> string \<Rightarrow> payload \<Rightarrow> string option prog" where
  "try_body env instruction_type p =
     (if instruction_type = ''CREATE_FILE'' then
        bindE (item p ''path'') (\<lambda>path.
        bindE (item p ''content'') (\<lambda>content.
        bindE (create_file env path content) (\<lambda>r. returnE (Some r))))
      else if instruction_type = ''RUN_COMMAND'' then
        bindE (item p ''command'') (\<lambda>command.
        bindE (run_command env command) (\<lambda>r. returnE (Some r)))
      else if instruction_type = ''DEPLOY_PROJECT'' then
        bindE (item p ''deploy_type'') (\<lambda>deploy_type.
        bindE (deploy_project env deploy_type) (\<lambda>r. returnE (Some r)))
      else if instruction_type = ''START_MONITORING'' then
        bindE (item p ''url'') (\<lambda>url.
        bindE (start_monitoring env url) (\<lambda>r. returnE (Some r)))
      else if instruction_type = ''CHECK_HEALTH'' then
        bindE (check_application_health env) (\<lambda>r. returnE (Some r))
      else if instruction_type = ''AUTO_FIX_ISSUES'' then
        bindE (item p ''issue_type'') (\<lambda>issue_type.
        bindE (auto_fix_issues env issue_type) (\<lambda>r. returnE (Some r)))
      else if instruction_type = ''ADD_FEATURE'' then
        bindE (item p ''feature_name'') (\<lambda>feature_name.
        bindE (item_files p) (\<lambda>fl.
        bindE (add_feature env feature_name fl) (\<lambda>r. returnE (Some r))))
      else if instruction_type = ''GIT_COMMIT'' then
        bindE (item p ''message'') (\<lambda>message.
        bindE (git_commit env message) (\<lambda>r. returnE (Some r)))
      else if instruction_type = ''RUN_TESTS'' then
        bindE (run_tests env) (\<lambda>r. returnE (Some r))
      else if instruction_type = ''BACKUP_PROJECT'' then
        bindE (backup_project env) (\<lambda>r. returnE (Some r))
      else returnE None)"

text \<open>
  \<open>execute_ai_instruction\<close>, lines 33 to 67: the \<open>try\<close> body, and the
  \<open>except Exception\<close> that turns what it raised into a string. The caller gets the
  reply \<open>Returned r\<close> when the method returns \<open>r\<close>, and \<open>Hung\<close> when a command of
  the handler did not return.
\<close>

datatype 'a reply = Returned 'a | Hung

definition execute_ai_instruction ::
  "env \<Rightarrow> string \<Rightarrow> payload \<Rightarrow> world \<Rightarrow> string option reply \<times> world" where
  "execute_ai_instruction env instruction_type p =
     (\<lambda>w. case try_body env instruction_type p w of
        (Inl e, w') \<Rightarrow>
          if e = Hang then (Hung, w') else (Returned (Some (''Error: '' @ str_exn e)), w')
      | (Inr r, w') \<Rightarrow> (Returned r, w'))"

text \<open>
  The ten action strings the dispatcher compares with, and the nine that the banner of
  \<open>start_ai_lifecycle_bridge\<close> (lines 200 to 202) prints as available.
\<close>

definition dispatched_actions :: "string list" where
  "dispatched_actions =
     [''CREATE_FILE'', ''RUN_COMMAND'', ''DEPLOY_PROJECT'', ''START_MONITORING'',
      ''CHECK_HEALTH'', ''AUTO_FIX_ISSUES'', ''ADD_FEATURE'', ''GIT_COMMIT'',
      ''RUN_TESTS'', ''BACKUP_PROJECT'']"

definition banner_actions :: "string list" where
  "banner_actions =
     [''CREATE_FILE'', ''DEPLOY_PROJECT'', ''START_MONITORING'',
      ''CHECK_HEALTH'', ''AUTO_FIX_ISSUES'', ''ADD_FEATURE'',
      ''RUN_TESTS'', ''BACKUP_PROJECT'', ''GIT_COMMIT'']"

text \<open>The keys each action reads from its payload, in the order it reads them.\<close>

definition required_keys :: "string \<Rightarrow> string list" where
  "required_keys a =
     (if a = ''CREATE_FILE'' then [''path'', ''content'']
      else if a = ''RUN_COMMAND'' then [''command'']
      else if a = ''DEPLOY_PROJECT'' then [''deploy_type'']
      else if a = ''START_MONITORING'' then [''url'']
      else if a = ''AUTO_FIX_ISSUES'' then [''issue_type'']
      else if a = ''ADD_FEATURE'' then [''feature_name'', ''files'']
      else if a = ''GIT_COMMIT'' then [''message'']
      else [])"

subsection \<open>Construction and the life of a bridge\<close>

text \<open>
  \<open>__init__\<close> and \<open>setup_bridge\<close>, lines 16 to 27, in a process with working
  directory \<open>d0\<close> and file system \<open>f0\<close>.
\<close>

definition setup_bridge :: "env \<Rightarrow> unit prog" where
  "setup_bridge env = log_status env ''FULL_LIFECYCLE_ACTIVE''"

definition init :: "env \<Rightarrow> path \<Rightarrow> filesystem \<Rightarrow> (exn + unit) \<times> world" where
  "init env d0 f0 =
     setup_bridge env
       \<lparr>repo_path = os_getcwd d0, deployment_url = None, monitoring_active = False,
        poll_threads = 0, cwd = d0, fs = f0, clock = 0\<rparr>"

text \<open>
  What happens to a bridge after its construction: an instruction is dispatched, a poll
  thread runs one pass of its loop, or the read loop gets \<open>exit\<close> and clears the
  flag (line 213). Each event comes with the environment of its moment.
\<close>

datatype event = Instruction env string payload | Poll env | Exit

fun step :: "event \<Rightarrow> world \<Rightarrow> world" where
  "step (Instruction env a p) w = snd (execute_ai_instruction env a p w)"
| "step (Poll env) w = (if monitoring_active w then snd (monitor_iteration env w) else w)"
| "step Exit w = w\<lparr>monitoring_active := False\<rparr>"

fun run :: "event list \<Rightarrow> world \<Rightarrow> world" where
  "run [] w = w"
| "run (e # es) w = run es (step e w)"

subsection \<open>The log, and an example world\<close>

text \<open>
  The log file is \<open>ai_lifecycle.log\<close> in the working directory of the process;
  \<open>log_text\<close> is what it holds, nothing when it is missing.
\<close>

definition log_path :: "world \<Rightarrow> path" where
  "log_path w = cwd w @ [log_name]"

definition file_text :: "filesystem \<Rightarrow> path \<Rightarrow> string" where
  "file_text f q = (case f q of Some (File c) \<Rightarrow> c | _ \<Rightarrow> [])"

definition log_text :: "world \<Rightarrow> string" where
  "log_text w = file_text (fs w) (log_path w)"

text \<open>A shell as \<open>sh\<close>, but with return code \<open>rc\<close> whatever the command.\<close>

definition with_returncode ::
  "int \<Rightarrow> (string \<Rightarrow> string \<Rightarrow> filesystem \<Rightarrow> (exn + completed_process) \<times> filesystem)
       \<Rightarrow> (string \<Rightarrow> string \<Rightarrow> filesystem \<Rightarrow> (exn + completed_process) \<times> filesystem)" where
  "with_returncode rc sh =
     (\<lambda>command d f. case sh command d f of
        (Inl e, f') \<Rightarrow> (Inl e, f')
      | (Inr result, f') \<Rightarrow> (Inr (result\<lparr>returncode := rc\<rparr>), f'))"

text \<open>
  An environment as \<open>env\<close>, but whose shell puts the entry at the path \<open>q\<close> back as
  it was before each command. A dispatch that goes the same way in both is one whose
  commands leave that entry alone.
\<close>

definition sparing :: "path \<Rightarrow> env \<Rightarrow> env" where
  "sparing q env =
     env\<lparr>shell := (\<lambda>command d f. case shell env command d f of (r, f') \<Rightarrow> (r, f'(q := f q)))\<rparr>"

text \<open>
  An example: a shell whose commands print nothing and touch no file, a server that
  answers 200, a clock that goes on by a second from one reading to the next, and a
  bridge constructed in the directory \<open>/repo\<close> of a file system that holds nothing
  else. \<open>loud_shell\<close> is a shell whose commands print on both streams, and
  \<open>erasing_shell\<close> one with a command that removes the log.
\<close>

definition quiet_shell ::
  "int \<Rightarrow> string \<Rightarrow> string \<Rightarrow> filesystem \<Rightarrow> (exn + completed_process) \<times> filesystem" where
  "quiet_shell rc = (\<lambda>command d f. (Inr \<lparr>returncode = rc, stdout = [], stderr = []\<rparr>, f))"

definition loud_shell ::
  "string \<Rightarrow> string \<Rightarrow> filesystem \<Rightarrow> (exn + completed_process) \<times> filesystem" where
  "loud_shell =
     (\<lambda>command d f.
        (Inr \<lparr>returncode = 2, stdout = ''building\<newline>'', stderr = ''1 warning\<newline>''\<rparr>, f))"

definition erasing_shell ::
  "string \<Rightarrow> string \<Rightarrow> filesystem \<Rightarrow> (exn + completed_process) \<times> filesystem" where
  "erasing_shell =
     (\<lambda>command d f.
        (Inr \<lparr>returncode = 0, stdout = [], stderr = []\<rparr>,
         if command = ''rm ai_lifecycle.log'' then f([''repo'', ''ai_lifecycle.log''] := None)
         else f))"

definition env0 :: env where
  "env0 = \<lparr>shell = quiet_shell 0, http_get = (\<lambda>url. Response 200),
           now = (\<lambda>n. ''2024-01-01 00:00:'' @ str_nat (10 + n) @ ''.000000''),
           stamp = (\<lambda>n. ''20240101_0000'' @ str_nat (10 + n))\<rparr>"

definition fs0 :: filesystem where
  "fs0 = [[] \<mapsto> Dir, [''repo''] \<mapsto> Dir]"

definition w0 :: world where
  "w0 = snd (init env0 [''repo''] fs0)"

text \<open>
  A method keeps an observation \<open>f\<close> of the world when \<open>f\<close> is the same after it
  as before, whether it returns or raises. \<open>place\<close> is where the bridge works: its
  directory field and the working directory of the process.
\<close>

definition keeps :: "(world \<Rightarrow> 'a) \<Rightarrow> 'b prog \<Rightarrow> bool" where
  "keeps f m = (\<forall>w. f (snd (m w)) = f w)"

definition place :: "world \<Rightarrow> string \<times> path" where
  "place w = (repo_path w, cwd w)"

text \<open>
  The log can be appended to when the working directory is there and no directory
  stands in the log's place. A shell spares a file when no command of it, whether it
  returns or raises, changes the text of that file.
\<close>

definition log_ready :: "world \<Rightarrow> bool" where
  "log_ready w = (fs w (cwd w) = Some Dir \<and> fs w (log_path w) \<noteq> Some Dir)"

definition spares :: "env \<Rightarrow> path \<Rightarrow> bool" where
  "spares env q = (\<forall>command d f. file_text (snd (shell env command d f)) q = file_text f q)"

text \<open>
  \<open>way\<close> lists the places that \<open>os.makedirs\<close> comes to along the names of a path,
  and \<open>with_dirs\<close> is a file system with a directory at each of them that was empty.
  For a path given to \<open>create_file\<close>, \<open>parent_of\<close> is the directory part of the
  joined path, \<open>made_dirs\<close> the places on the way of that part, and \<open>slot\<close> the
  place of the file. A path is creatable in a world when \<open>create_file\<close> can go
  through with it: the joined path holds no NUL byte and does not end in a slash, its
  directory part is not empty and starts in a directory that exists, no regular file
  stands at a place on the way of the directory part, the file itself is to stand at
  none of these places and where no directory is, the working directory is there or is
  made on the way, and the log file is the file itself or stands where no directory is
  or is made.
\<close>

fun way :: "path \<Rightarrow> string list \<Rightarrow> path list" where
  "way cur [] = []"
| "way cur (c # cs) = walk_step cur c # way (walk_step cur c) cs"

definition with_dirs :: "filesystem \<Rightarrow> path list \<Rightarrow> filesystem" where
  "with_dirs f qs = (\<lambda>x. if x \<in> set qs \<and> f x = None then Some Dir else f x)"

definition is_file :: "node option \<Rightarrow> bool" where
  "is_file x = (case x of Some (File _) \<Rightarrow> True | _ \<Rightarrow> False)"

definition parent_of :: "world \<Rightarrow> string \<Rightarrow> string" where
  "parent_of w filepath = os_path_dirname (os_path_join (repo_path w) filepath)"

definition made_dirs :: "world \<Rightarrow> string \<Rightarrow> path list" where
  "made_dirs w filepath =
     way (start_dir (cwd w) (parent_of w filepath)) (components (parent_of w filepath))"

definition slot :: "world \<Rightarrow> string \<Rightarrow> path" where
  "slot w filepath = target (cwd w) (os_path_join (repo_path w) filepath)"

definition creatable :: "world \<Rightarrow> string \<Rightarrow> bool" where
  "creatable w filepath =
     (\<not> has_nul (os_path_join (repo_path w) filepath) \<and>
      parent_of w filepath \<noteq> [] \<and>
      last (os_path_join (repo_path w) filepath) \<noteq> CHR ''/'' \<and>
      fs w (start_dir (cwd w) (parent_of w filepath)) = Some Dir \<and>
      list_all (\<lambda>x. \<not> is_file (fs w x)) (made_dirs w filepath) \<and>
      slot w filepath \<notin> set (made_dirs w filepath) \<and>
      fs w (slot w filepath) \<noteq> Some Dir \<and>
      (fs w (cwd w) = Some Dir \<or> cwd w \<in> set (made_dirs w filepath)) \<and>
      (log_path w = slot w filepath \<or>
       fs w (log_path w) \<noteq> Some Dir \<and> log_path w \<notin> set (made_dirs w filepath)))"

text \<open>
  What a dispatch writes to the log when nothing raises. \<open>statuses\<close> are the status
  texts, in order, of the \<open>log_status\<close> calls that the handler of an action and the
  handlers it calls make, for every action but \<open>BACKUP_PROJECT\<close>, whose first status
  holds a reading of the clock. \<open>logged\<close> gives each status of a dispatch that
  starts at reading \<open>t\<close> the number of the clock reading of its call: the calls read
  the clock one after the other (\<open>stamped\<close>), after the reading of the time stamp in
  \<open>BACKUP_PROJECT\<close>. \<open>records\<close> is the text of the records, and \<open>written\<close>
  are the paths the dispatch creates files at. \<open>field\<close> is a string of the payload,
  empty when the key is missing. \<open>appends\<close> says that a method of a bridge working
  at a given place, when it returns, has appended exactly the records of the given
  statuses to the log and read the clock for nothing else; \<open>returns\<close> says that what
  a method returns satisfies a predicate, and \<open>hangs_in_shell\<close> that a method fails
  to return only when a command of the shell does.
\<close>

fun stamped :: "nat \<Rightarrow> string list \<Rightarrow> (nat \<times> string) list" where
  "stamped t [] = []"
| "stamped t (s # sts) = (t, s) # stamped (Suc t) sts"

definition records :: "env \<Rightarrow> (nat \<times> string) list \<Rightarrow> string" where
  "records env rs = concat (map (\<lambda>(n, s). log_line env n s) rs)"

definition field :: "payload \<Rightarrow> string \<Rightarrow> string" where
  "field p k = (case strings p k of Some v \<Rightarrow> v | None \<Rightarrow> [])"

definition deploy_statuses :: "string \<Rightarrow> string list" where
  "deploy_statuses t =
     (''DEPLOYMENT_STARTED: '' @ t) #
     (if t = ''github_pages'' then [''COMMAND_RUN: gh pages deploy --branch main'']
      else if t = ''docker''
        then [''COMMAND_RUN: docker build -t app . && docker run -d -p 3000:3000 app'']
      else if t = ''vercel'' then [''COMMAND_RUN: npx vercel --prod'']
      else [])"

definition auto_fix_statuses :: "string \<Rightarrow> string list" where
  "auto_fix_statuses t =
     (''AUTO_FIXING: '' @ t) #
     (if t = ''build_failure''
        then [''COMMAND_RUN: npm install || pip install -r requirements.txt'']
      else if t = ''deployment_failure'' then deploy_statuses ''github_pages''
      else if t = ''database_connection'' then [''FILE_CREATED: config/fix_database.py'']
      else [])"

definition statuses :: "string \<Rightarrow> payload \<Rightarrow> string list" where
  "statuses a p =
     (if a = ''CREATE_FILE'' then [''FILE_CREATED: '' @ field p ''path'']
      else if a = ''RUN_COMMAND'' then [''COMMAND_RUN: '' @ field p ''command'']
      else if a = ''DEPLOY_PROJECT'' then deploy_statuses (field p ''deploy_type'')
      else if a = ''AUTO_FIX_ISSUES'' then auto_fix_statuses (field p ''issue_type'')
      else if a = ''ADD_FEATURE'' then
        (''ADDING_FEATURE: '' @ field p ''feature_name'') #
        map (\<lambda>(file_path, content). ''FILE_CREATED: '' @ file_path)
          (case files p of Some fl \<Rightarrow> fl | None \<Rightarrow> []) @
        deploy_statuses ''github_pages''
      else if a = ''GIT_COMMIT'' then
        [''COMMAND_RUN: git add .'',
         ''COMMAND_RUN: git commit -m '' @ [CHR 0x22] @ field p ''message'' @ [CHR 0x22],
         ''COMMAND_RUN: git push origin main'']
      else if a = ''RUN_TESTS'' then
        [''COMMAND_RUN: python -m pytest || npm test || echo '' @
           [CHR 0x27] @ ''No tests found'' @ [CHR 0x27]]
      else [])"

definition logged :: "env \<Rightarrow> nat \<Rightarrow> string \<Rightarrow> payload \<Rightarrow> (nat \<times> string) list" where
  "logged env t a p =
     (if a = ''BACKUP_PROJECT'' then
        stamped (Suc t)
          [''COMMAND_RUN: git tag backup-'' @ stamp env t, ''COMMAND_RUN: git push --tags'']
      else stamped t (statuses a p))"

definition written :: "string \<Rightarrow> payload \<Rightarrow> string list" where
  "written a p =
     (if a = ''CREATE_FILE'' then [field p ''path'']
      else if a = ''ADD_FEATURE'' then map fst (case files p of Some fl \<Rightarrow> fl | None \<Rightarrow> [])
      else if a = ''AUTO_FIX_ISSUES'' \<and> field p ''issue_type'' = ''database_connection''
        then [''config/fix_database.py'']
      else [])"

definition appends :: "env \<Rightarrow> string \<Rightarrow> path \<Rightarrow> 'a prog \<Rightarrow> string list \<Rightarrow> bool" where
  "appends env rp cw m sts =
     (\<forall>w x w'. repo_path w = rp \<and> cwd w = cw \<and> m w = (Inr x, w') \<longrightarrow>
        log_text w' = log_text w @ records env (stamped (clock w) sts) \<and>
        clock w' = clock w + length sts)"

definition returns :: "('a \<Rightarrow> bool) \<Rightarrow> 'a prog \<Rightarrow> bool" where
  "returns P m = (\<forall>w x w'. m w = (Inr x, w') \<longrightarrow> P x)"

definition hangs_in_shell :: "env \<Rightarrow> 'a prog \<Rightarrow> bool" where
  "hangs_in_shell env m =
     (\<forall>w w'. m w = (Inl Hang, w') \<longrightarrow> (\<exists>command d f. fst (shell env command d f) = Inl Hang))"

section \<open>Properties\<close>

subsection \<open>Sequencing\<close>

lemma bindE_returnE [simp]: "bindE (returnE x) k = k x"
  by (rule ext) (simp add: bindE_def returnE_def)

lemma bindE_raiseE [simp]: "bindE (raiseE e) k = raiseE e"
  by (rule ext) (simp add: bindE_def raiseE_def)

lemma returnE_apply [simp]: "returnE x w = (Inr x, w)"
  by (simp add: returnE_def)

lemma raiseE_apply [simp]: "raiseE e w = (Inl e, w)"
  by (simp add: raiseE_def)

lemma bindE_Inr: "m w = (Inr x, w1) \<Longrightarrow> bindE m k w = k x w1"
  by (simp add: bindE_def)

lemma bindE_Inl: "m w = (Inl e, w1) \<Longrightarrow> bindE m k w = (Inl e, w1)"
  by (simp add: bindE_def)

lemma bindE_eq_Inr:
  "bindE m k w = (Inr y, w') \<longleftrightarrow> (\<exists>x w1. m w = (Inr x, w1) \<and> k x w1 = (Inr y, w'))"
  by (auto simp: bindE_def split: prod.splits sum.splits)

subsection \<open>The example world\<close>

lemma components_log_name: "components log_name = [log_name]"
  by (simp add: components_def log_name_def)

lemma has_nul_log_name [simp]: "\<not> has_nul log_name"
  by (simp add: has_nul_def log_name_def)

lemma open_target_log:
  "fs w (cwd w) = Some Dir \<Longrightarrow> fs w (log_path w) \<noteq> Some Dir \<Longrightarrow>
   open_target (fs w) (cwd w) log_name = Inr (log_path w)"
  by (simp add: open_target_def resolve_path_def components_log_name start_dir_def log_path_def)
     (simp add: log_name_def walk_step_def)

lemma log_status_ok:
  "fs w (cwd w) = Some Dir \<Longrightarrow> fs w (log_path w) \<noteq> Some Dir \<Longrightarrow>
   log_status env s w =
     (Inr (), w\<lparr>fs := (fs w)(log_path w \<mapsto> File (log_text w @ log_line env (clock w) s)),
               clock := Suc (clock w)\<rparr>)"
  by (simp add: log_status_def open_target_log log_text_def file_text_def)

lemma w0_eq:
  "w0 = \<lparr>repo_path = ''/repo'', deployment_url = None, monitoring_active = False,
          poll_threads = 0, cwd = [''repo''],
          fs = fs0([''repo'', log_name] \<mapsto> File (log_line env0 0 ''FULL_LIFECYCLE_ACTIVE'')),
          clock = Suc 0\<rparr>"
  by (simp add: w0_def init_def setup_bridge_def log_status_ok log_path_def fs0_def
      os_getcwd_def log_text_def file_text_def)

lemma w0_fields:
  "repo_path w0 = ''/repo''" "deployment_url w0 = None" "monitoring_active w0 = False"
  "cwd w0 = [''repo'']" "clock w0 = Suc 0"
  by (simp_all add: w0_eq)

lemma w0_fs:
  "fs w0 = fs0([''repo'', log_name] \<mapsto> File (log_line env0 0 ''FULL_LIFECYCLE_ACTIVE''))"
  by (simp add: w0_eq)

lemma w0_log_ready: "fs w0 (cwd w0) = Some Dir" "fs w0 (log_path w0) \<noteq> Some Dir"
  by (simp_all add: w0_fs w0_fields log_path_def fs0_def)

subsection \<open>Missing payload keys\<close>

lemma item_None [simp]: "strings p k = None \<Longrightarrow> item p k = raiseE (KeyError k)"
  by (simp add: item_def)

lemma item_Some [simp]: "strings p k = Some v \<Longrightarrow> item p k = returnE v"
  by (simp add: item_def)

lemma item_files_None [simp]: "files p = None \<Longrightarrow> item_files p = raiseE (KeyError ''files'')"
  by (simp add: item_files_def)

lemma item_files_Some [simp]: "files p = Some v \<Longrightarrow> item_files p = returnE v"
  by (simp add: item_files_def)

lemma execute_raise:
  "try_body env a p = raiseE e \<Longrightarrow> e \<noteq> Hang \<Longrightarrow>
   execute_ai_instruction env a p w = (Returned (Some (''Error: '' @ str_exn e)), w)"
  by (simp add: execute_ai_instruction_def raiseE_def)

lemma py_repr_content: "py_repr ''content'' = [CHR 0x27] @ ''content'' @ [CHR 0x27]"
  by (simp add: py_repr_def escaped_def Let_def)

text \<open>
  C1. When the payload of an instruction lacks a key that its action requires, the
  dispatcher returns the string \<open>Error: \<close> followed by the text of the
  \<open>KeyError\<close> of the first key it misses, and no handler has run: the world is as
  before. The result is a value of the dispatcher, so nothing is raised past it.
\<close>

theorem missing_key_error:
  assumes "k \<in> set (required_keys a)" and "\<not> has_key p k"
  shows "\<exists>k' \<in> set (required_keys a). \<not> has_key p k' \<and>
           execute_ai_instruction env a p w =
             (Returned (Some (''Error: '' @ str_exn (KeyError k'))), w)"
proof -
  have "\<exists>k' \<in> set (required_keys a). \<not> has_key p k' \<and> try_body env a p = raiseE (KeyError k')"
    using assms
    by (cases "strings p ''path''"; cases "strings p ''feature_name''")
       (auto simp: required_keys_def try_body_def has_key_def split: if_splits)
  then show ?thesis
    by (auto simp: execute_raise simp del: str_exn.simps)
qed

theorem missing_key_error_witness:
  "''content'' \<in> set (required_keys ''CREATE_FILE'') \<and>
   \<not> has_key \<lparr>strings = [''path'' \<mapsto> ''out/x.txt''], files = None\<rparr> ''content'' \<and>
   execute_ai_instruction env0 ''CREATE_FILE''
       \<lparr>strings = [''path'' \<mapsto> ''out/x.txt''], files = None\<rparr> w0 =
     (Returned (Some (''Error: '' @ [CHR 0x27] @ ''content'' @ [CHR 0x27])), w0)"
  using missing_key_error [of "''content''" "''CREATE_FILE''"
      "\<lparr>strings = [''path'' \<mapsto> ''out/x.txt''], files = None\<rparr>" env0 w0]
  by (simp add: required_keys_def has_key_def py_repr_content)

subsection \<open>The health check\<close>

lemma str_int_500: "str_int 500 = ''500''"
  by (simp add: str_int_def str_nat.simps)

text \<open>
  C2. \<open>check_application_health\<close> by cases. With no deployment URL recorded the
  result is exactly \<open>No deployment URL set\<close> (also through a \<open>CHECK_HEALTH\<close>
  dispatch). With a URL recorded (a non-empty string: the empty string counts as
  none for \<open>not self.deployment_url\<close>), status 200 gives the healthy string, any
  other status the issue string that ends in the status code, and a request that
  raises the error string that ends in the text of the exception.
\<close>

theorem check_application_health_cases:
  "(deployment_url w = None \<longrightarrow>
      check_application_health env w = (Inr ''No deployment URL set'', w) \<and>
      execute_ai_instruction env ''CHECK_HEALTH'' p w =
        (Returned (Some ''No deployment URL set''), w)) \<and>
   (deployment_url w = Some url \<and> url \<noteq> [] \<and> http_get env url = Response 200 \<longrightarrow>
      check_application_health env w = (Inr (check_mark @ '' Application healthy''), w)) \<and>
   (deployment_url w = Some url \<and> url \<noteq> [] \<and> http_get env url = Response code \<and> code \<noteq> 200 \<longrightarrow>
      check_application_health env w =
        (Inr (cross_mark @ '' Application issue: HTTP '' @ str_int code), w)) \<and>
   (deployment_url w = Some url \<and> url \<noteq> [] \<and> http_get env url = RequestFailed e \<longrightarrow>
      check_application_health env w = (Inr (cross_mark @ '' Application error: '' @ e), w))"
  by (simp add: check_application_health_def execute_ai_instruction_def try_body_def
      returnE_def bindE_def)

theorem check_application_health_cases_witness:
  "check_application_health env0 w0 = (Inr ''No deployment URL set'', w0) \<and>
   execute_ai_instruction env0 ''CHECK_HEALTH'' \<lparr>strings = Map.empty, files = None\<rparr> w0 =
     (Returned (Some ''No deployment URL set''), w0) \<and>
   check_application_health env0 (w0\<lparr>deployment_url := Some ''http://localhost:3000''\<rparr>) =
     (Inr (check_mark @ '' Application healthy''),
      w0\<lparr>deployment_url := Some ''http://localhost:3000''\<rparr>) \<and>
   check_application_health (env0\<lparr>http_get := \<lambda>url. Response 500\<rparr>)
       (w0\<lparr>deployment_url := Some ''http://localhost:3000''\<rparr>) =
     (Inr (cross_mark @ '' Application issue: HTTP 500''),
      w0\<lparr>deployment_url := Some ''http://localhost:3000''\<rparr>) \<and>
   check_application_health (env0\<lparr>http_get := \<lambda>url. RequestFailed ''Connection refused''\<rparr>)
       (w0\<lparr>deployment_url := Some ''http://localhost:3000''\<rparr>) =
     (Inr (cross_mark @ '' Application error: Connection refused''),
      w0\<lparr>deployment_url := Some ''http://localhost:3000''\<rparr>)"
  using check_application_health_cases [where w = w0 and env = env0
      and p = "\<lparr>strings = Map.empty, files = None\<rparr>"]
    check_application_health_cases [where env = env0 and url = "''http://localhost:3000''"
      and w = "w0\<lparr>deployment_url := Some ''http://localhost:3000''\<rparr>"]
    check_application_health_cases [where url = "''http://localhost:3000''" and code = 500
      and env = "env0\<lparr>http_get := \<lambda>url. Response 500\<rparr>"
      and w = "w0\<lparr>deployment_url := Some ''http://localhost:3000''\<rparr>"]
    check_application_health_cases [where url = "''http://localhost:3000''"
      and e = "''Connection refused''"
      and env = "env0\<lparr>http_get := \<lambda>url. RequestFailed ''Connection refused''\<rparr>"
      and w = "w0\<lparr>deployment_url := Some ''http://localhost:3000''\<rparr>"]
  by (simp add: w0_fields env0_def str_int_500)

text \<open>
  C9. The health check changes nothing: the fields of the bridge, the working directory
  and the file system, and so the log, are after \<open>check_application_health\<close> and
  after a \<open>CHECK_HEALTH\<close> dispatch what they were before, whatever the recorded URL
  and whatever the server does.
\<close>

theorem check_health_read_only:
  "snd (check_application_health env w) = w \<and>
   snd (execute_ai_instruction env ''CHECK_HEALTH'' p w) = w"
  by (simp add: check_application_health_def execute_ai_instruction_def try_body_def
      returnE_def bindE_def split: option.splits http_outcome.splits)

theorem check_health_read_only_witness:
  "snd (check_application_health (env0\<lparr>http_get := \<lambda>url. Response 500\<rparr>)
          (w0\<lparr>deployment_url := Some ''http://localhost:3000''\<rparr>)) =
     w0\<lparr>deployment_url := Some ''http://localhost:3000''\<rparr> \<and>
   log_text (snd (execute_ai_instruction env0 ''CHECK_HEALTH''
                    \<lparr>strings = Map.empty, files = None\<rparr> w0)) = log_text w0"
  using check_health_read_only [of "env0\<lparr>http_get := \<lambda>url. Response 500\<rparr>"
      "w0\<lparr>deployment_url := Some ''http://localhost:3000''\<rparr>"]
    check_health_read_only [of env0 w0 "\<lparr>strings = Map.empty, files = None\<rparr>"]
  by simp

subsection \<open>What no method changes\<close>

lemma keepsD: "keeps f m \<Longrightarrow> f (snd (m w)) = f w"
  by (simp add: keeps_def)

lemma keeps_returnE [simp]: "keeps f (returnE x)"
  by (simp add: keeps_def)

lemma keeps_raiseE [simp]: "keeps f (raiseE e)"
  by (simp add: keeps_def)

lemma keeps_bindE: "keeps f m \<Longrightarrow> (\<And>x. keeps f (k x)) \<Longrightarrow> keeps f (bindE m k)"
  by (auto simp: keeps_def bindE_def split: prod.splits sum.splits) (metis snd_conv)+

lemma keeps_if: "keeps f a \<Longrightarrow> keeps f b \<Longrightarrow> keeps f (if c then a else b)"
  by simp

lemma keeps_place_open_write [simp]: "keeps place (open_write name content)"
  by (simp add: keeps_def open_write_def place_def split: sum.splits)

lemma keeps_place_os_makedirs [simp]: "keeps place (os_makedirs name)"
  by (simp add: keeps_def os_makedirs_def place_def split: option.splits prod.splits)

lemma keeps_place_subprocess_run [simp]: "keeps place (subprocess_run env command)"
  by (simp add: keeps_def subprocess_run_def place_def split: prod.splits)

lemma keeps_place_strftime_now [simp]: "keeps place (strftime_now env)"
  by (simp add: keeps_def strftime_now_def place_def)

lemma keeps_place_set_deployment_url [simp]: "keeps place (set_deployment_url url)"
  by (simp add: keeps_def set_deployment_url_def place_def)

lemma keeps_place_log_status [simp]: "keeps place (log_status env s)"
  by (simp add: keeps_def log_status_def place_def split: sum.splits)

lemma keeps_place_check_application_health [simp]: "keeps place (check_application_health env)"
  by (simp add: keeps_def check_application_health_def split: option.splits http_outcome.splits)

lemma keeps_place_start_monitoring [simp]: "keeps place (start_monitoring env url)"
  by (simp add: keeps_def start_monitoring_def place_def)

lemma keeps_place_create_file [simp]: "keeps place (create_file env filepath content)"
proof -
  have "keeps place (bindE (os_makedirs d) (\<lambda>_. bindE (open_write q content) (\<lambda>_.
          bindE (log_status env s) (\<lambda>_. returnE r))))" for d q s r
    by (intro keeps_bindE) simp_all
  then have aux: "place (snd (bindE (os_makedirs d) (\<lambda>_. bindE (open_write q content) (\<lambda>_.
          bindE (log_status env s) (\<lambda>_. returnE r))) w)) = place w" for d q s r w
    by (rule keepsD)
  show ?thesis
    unfolding keeps_def create_file_def Let_def by (rule allI) (rule aux)
qed

lemma keeps_place_run_command [simp]: "keeps place (run_command env command)"
  unfolding run_command_def Let_def by (intro keeps_bindE) simp_all

lemma keeps_place_deploy_project [simp]: "keeps place (deploy_project env deploy_type)"
  unfolding deploy_project_def by (intro keeps_bindE keeps_if) simp_all

lemma keeps_place_create_files [simp]: "keeps place (create_files env fl)"
proof (induction fl)
  case Nil
  show ?case
    by (simp del: returnE_apply)
next
  case (Cons a fl)
  then show ?case
    by (cases a) (simp, intro keeps_bindE, simp_all)
qed

lemma keeps_place_auto_fix_issues [simp]: "keeps place (auto_fix_issues env issue_type)"
  unfolding auto_fix_issues_def by (intro keeps_bindE keeps_if) simp_all

lemma keeps_place_add_feature [simp]: "keeps place (add_feature env feature_name fl)"
  unfolding add_feature_def by (intro keeps_bindE) simp_all

lemma keeps_place_run_tests [simp]: "keeps place (run_tests env)"
  unfolding run_tests_def by (intro keeps_bindE) simp_all

lemma keeps_place_backup_project [simp]: "keeps place (backup_project env)"
  unfolding backup_project_def Let_def by (intro keeps_bindE) simp_all

lemma keeps_place_git_commit [simp]: "keeps place (git_commit env message)"
  unfolding git_commit_def by (intro keeps_bindE) simp_all

lemma keeps_place_item [simp]: "keeps place (item p k)"
  by (simp add: item_def split: option.splits)

lemma keeps_place_item_files [simp]: "keeps place (item_files p)"
  by (simp add: item_files_def split: option.splits)

lemma keeps_place_try_body [simp]: "keeps place (try_body env a p)"
  unfolding try_body_def by (intro keeps_bindE keeps_if) simp_all

lemma keeps_place_monitor_iteration [simp]: "keeps place (monitor_iteration env)"
  unfolding monitor_iteration_def by (intro keeps_bindE keeps_if) simp_all

lemma place_execute: "place (snd (execute_ai_instruction env a p w)) = place w"
proof (cases "try_body env a p w")
  case (Pair r w')
  with keepsD [OF keeps_place_try_body, of env a p w] have "place w' = place w"
    by simp
  with Pair show ?thesis
    by (simp add: execute_ai_instruction_def split: sum.splits)
qed

lemma place_step: "place (step e w) = place w"
  by (cases e) (simp_all add: place_execute keepsD, simp add: place_def)

lemma place_run: "place (run es w) = place w"
  by (induction es arbitrary: w) (simp_all add: place_step)

text \<open>
  C8. The working-directory field is assigned once, by the constructor, to the
  working directory of the process, and nothing assigns it again: after any sequence of
  dispatched instructions (any of the ten actions, with any payload, in any
  environment, raising or not), passes of the poll loop and exits, \<open>repo_path\<close> is
  what it was.
\<close>

theorem repo_path_fixed:
  "repo_path (snd (init env d0 f0)) = os_getcwd d0 \<and>
   repo_path (run es w) = repo_path w"
proof -
  have "place (snd (init env d0 f0)) = (os_getcwd d0, d0)"
    using keepsD [OF keeps_place_log_status, of env "''FULL_LIFECYCLE_ACTIVE''"
        "\<lparr>repo_path = os_getcwd d0, deployment_url = None, monitoring_active = False,
          poll_threads = 0, cwd = d0, fs = f0, clock = 0\<rparr>"]
    by (simp add: init_def setup_bridge_def place_def)
  moreover have "place (run es w) = place w"
    by (rule place_run)
  ultimately show ?thesis
    by (simp add: place_def)
qed

theorem repo_path_fixed_witness:
  "repo_path (snd (init env0 [''repo''] fs0)) = ''/repo'' \<and>
   repo_path (run [Instruction env0 ''START_MONITORING''
                     \<lparr>strings = [''url'' \<mapsto> ''http://localhost:3000''], files = None\<rparr>,
                   Poll env0,
                   Instruction env0 ''DEPLOY_PROJECT''
                     \<lparr>strings = [''deploy_type'' \<mapsto> ''docker''], files = None\<rparr>,
                   Exit] w0) = ''/repo''"
  using repo_path_fixed [where env = env0 and ?d0.0 = "[''repo'']" and ?f0.0 = fs0 and w = w0
      and es = "[Instruction env0 ''START_MONITORING''
          \<lparr>strings = [''url'' \<mapsto> ''http://localhost:3000''], files = None\<rparr>,
        Poll env0,
        Instruction env0 ''DEPLOY_PROJECT''
          \<lparr>strings = [''deploy_type'' \<mapsto> ''docker''], files = None\<rparr>,
        Exit]"]
  by (simp add: w0_fields os_getcwd_def)

subsection \<open>The poll loop\<close>

text \<open>
  The loop logs when the health string contains \<open>ERROR\<close> in capitals. The strings
  that \<open>check_application_health\<close> builds say \<open>issue\<close> and \<open>error\<close> in small
  letters, and a status code is digits: for no status code whatever does a pass of the
  loop write a record.
\<close>

lemma sublist_append_last:
  assumes "sublist xs (ys @ zs)" and "xs \<noteq> []" and "last xs \<notin> set zs"
  shows "sublist xs ys"
proof -
  from assms(1) obtain ps ss where eq: "ys @ zs = (ps @ xs) @ ss"
    by (auto simp: sublist_def)
  then obtain us where "(ys = (ps @ xs) @ us \<and> us @ zs = ss) \<or> (ys @ us = ps @ xs \<and> zs = us @ ss)"
    by (auto simp only: append_eq_append_conv2)
  then show ?thesis
  proof
    assume "ys = (ps @ xs) @ us \<and> us @ zs = ss"
    then show ?thesis by (auto simp: sublist_def)
  next
    assume h: "ys @ us = ps @ xs \<and> zs = us @ ss"
    show ?thesis
    proof (cases "us = []")
      case True
      with h have "ys = ps @ xs @ []" by simp
      then show ?thesis unfolding sublist_def by blast
    next
      case False
      with h assms(2) have "last xs = last us"
        by (metis last_appendR)
      with False h have "last xs \<in> set zs" by simp
      with assms(3) show ?thesis by simp
    qed
  qed
qed

lemma set_str_nat: "set (str_nat n) \<subseteq> set ''0123456789''"
proof (induction n rule: str_nat.induct)
  case (1 n)
  have d: "''0123456789'' ! k \<in> set ''0123456789''" if "k < 10" for k
    using that by (intro nth_mem) simp
  show ?case
  proof (cases "n < 10")
    case True
    then show ?thesis using d [of n] by (subst str_nat.simps) simp
  next
    case False
    have "''0123456789'' ! (n mod 10) \<in> set ''0123456789''"
      by (rule d) simp
    moreover from False 1 have "set (str_nat (n div 10)) \<subseteq> set ''0123456789''"
      by simp
    ultimately have "set (str_nat (n div 10) @ [''0123456789'' ! (n mod 10)]) \<subseteq> set ''0123456789''"
      by (simp del: set_simps add: list.set(1) list.set(2) [of _ "[]"])
    with False show ?thesis
      by (subst str_nat.simps) (simp del: set_simps)
  qed
qed

lemma R_notin_str_int: "CHR ''R'' \<notin> set (str_int i)"
  using set_str_nat [of "nat i"] set_str_nat [of "nat (- i)"]
  by (auto simp: str_int_def)

lemma issue_has_no_ERROR:
  "\<not> sublist ''ERROR'' (cross_mark @ '' Application issue: HTTP '' @ str_int code)"
proof
  assume "sublist ''ERROR'' (cross_mark @ '' Application issue: HTTP '' @ str_int code)"
  then have "sublist ''ERROR'' ((cross_mark @ '' Application issue: HTTP '') @ str_int code)"
    by simp
  then have "sublist ''ERROR'' (cross_mark @ '' Application issue: HTTP '')"
    by (rule sublist_append_last) (simp_all add: R_notin_str_int)
  then show False
    by (simp add: cross_mark_def sublist_Cons_right)
qed

lemma monitor_iteration_issue:
  assumes "deployment_url w = Some url" "url \<noteq> []" "http_get env url = Response code" "code \<noteq> 200"
  shows "monitor_iteration env w = (Inr (), w)"
  using assms issue_has_no_ERROR [of code]
  by (simp add: monitor_iteration_def check_application_health_def bindE_def)

text \<open>
  C5 fails on the code. With a URL recorded and the flag set, a server that answers
  500 gives the health string \<open>Application issue: HTTP 500\<close>, and three passes of
  the poll loop leave the world, and so the log, as it was; a refused connection gives
  \<open>Application error: Connection refused\<close>, and the pass again appends nothing.
\<close>

theorem poll_logs_no_health_issue:
  "fst (check_application_health (env0\<lparr>http_get := \<lambda>url. Response 500\<rparr>)
         (w0\<lparr>deployment_url := Some ''http://localhost:3000'', monitoring_active := True\<rparr>)) =
     Inr (cross_mark @ '' Application issue: HTTP 500'') \<and>
   monitor (replicate 3 (env0\<lparr>http_get := \<lambda>url. Response 500\<rparr>))
       (w0\<lparr>deployment_url := Some ''http://localhost:3000'', monitoring_active := True\<rparr>) =
     (Inr (), w0\<lparr>deployment_url := Some ''http://localhost:3000'', monitoring_active := True\<rparr>) \<and>
   fst (check_application_health (env0\<lparr>http_get := \<lambda>url. RequestFailed ''Connection refused''\<rparr>)
         (w0\<lparr>deployment_url := Some ''http://localhost:3000'', monitoring_active := True\<rparr>)) =
     Inr (cross_mark @ '' Application error: Connection refused'') \<and>
   monitor_iteration (env0\<lparr>http_get := \<lambda>url. RequestFailed ''Connection refused''\<rparr>)
       (w0\<lparr>deployment_url := Some ''http://localhost:3000'', monitoring_active := True\<rparr>) =
     (Inr (), w0\<lparr>deployment_url := Some ''http://localhost:3000'', monitoring_active := True\<rparr>)"
  by (simp add: monitor_iteration_def check_application_health_def bindE_def str_int_500
      cross_mark_def sublist_Cons_right numeral_3_eq_3)

subsection \<open>Paths and the log\<close>

lemma resolve_Inr: "resolve f name cur cs = Inr p \<Longrightarrow> p = foldl walk_step cur cs"
  by (induction cs arbitrary: cur) (auto split: option.splits node.splits)

lemma resolve_Dir_mono:
  "resolve f name cur cs = Inr p \<Longrightarrow> (\<And>q. f q = Some Dir \<Longrightarrow> f2 q = Some Dir) \<Longrightarrow>
   resolve f2 name cur cs = Inr p"
  by (induction cs arbitrary: cur) (auto split: option.splits node.splits)

lemma log_path_neq_cwd [simp]: "log_path w \<noteq> cwd w" "cwd w \<noteq> log_path w"
  by (simp_all add: log_path_def)

lemma log_path_fs_update [simp]: "log_path (w\<lparr>fs := f\<rparr>) = log_path w"
  by (simp add: log_path_def)

lemma target_log_name: "target d log_name = d @ [log_name]"
  by (simp add: target_def components_log_name start_dir_def) (simp add: log_name_def walk_step_def)

lemma open_target_log_Inr:
  "open_target (fs w) (cwd w) log_name = Inr q \<Longrightarrow> log_ready w \<and> q = log_path w"
  by (simp add: open_target_def resolve_path_def components_log_name start_dir_def log_path_def
      log_ready_def split: sum.splits option.splits node.splits if_splits)
     (simp_all add: log_name_def walk_step_def)

lemma log_path_clock_update [simp]: "log_path (w\<lparr>clock := n\<rparr>) = log_path w"
  by (simp add: log_path_def)

lemma log_text_clock_update [simp]: "log_text (w\<lparr>clock := n\<rparr>) = log_text w"
  by (simp add: log_text_def)

lemma log_status_ready:
  "log_ready w \<Longrightarrow>
   log_status env s w =
     (Inr (), w\<lparr>fs := (fs w)(log_path w \<mapsto> File (log_text w @ log_line env (clock w) s)),
               clock := Suc (clock w)\<rparr>)"
  by (simp add: log_ready_def log_status_ok)

lemma log_status_Inr:
  assumes "log_status env s w = (Inr x, w')"
  shows "log_ready w \<and>
         w' = w\<lparr>fs := (fs w)(log_path w \<mapsto> File (log_text w @ log_line env (clock w) s)),
                 clock := Suc (clock w)\<rparr>"
proof -
  from assms obtain q where "open_target (fs w) (cwd w) log_name = Inr q"
    by (auto simp: log_status_def split: sum.splits)
  then have "log_ready w"
    by (simp add: open_target_log_Inr)
  with assms show ?thesis
    by (simp add: log_status_ready)
qed

lemma resolve_not_Hang: "resolve f name cur cs \<noteq> Inl Hang"
  by (induction cs arbitrary: cur)
     (auto simp: ENOTDIR_def ENOENT_def split: option.splits node.splits)

lemma open_target_not_Hang: "open_target f d n \<noteq> Inl Hang"
  using resolve_not_Hang [of f n "start_dir d n" "components n"]
  by (auto simp: open_target_def resolve_path_def EMBEDDED_NUL_def EISDIR_def ENOENT_def
      split: sum.splits if_splits)

lemma log_status_Inl:
  assumes "log_status env s w = (Inl e, w')"
  shows "w' = w \<and> \<not> log_ready w \<and> e \<noteq> Hang"
proof -
  from assms have "\<not> log_ready w"
    by (auto simp: log_status_ready)
  moreover from assms have "w' = w" and "open_target (fs w) (cwd w) log_name = Inl e"
    by (auto simp: log_status_def split: sum.splits)
  ultimately show ?thesis
    using open_target_not_Hang [of "fs w" "cwd w" log_name] by auto
qed

lemma log_status_not_ready: "\<not> log_ready w \<Longrightarrow> \<exists>e. log_status env s w = (Inl e, w) \<and> e \<noteq> Hang"
proof -
  assume n: "\<not> log_ready w"
  obtain r w' where r: "log_status env s w = (r, w')"
    by (cases "log_status env s w")
  show ?thesis
  proof (cases r)
    case (Inl e)
    with r log_status_Inl [of env s w e w'] show ?thesis by simp
  next
    case (Inr x)
    with r log_status_Inr [of env s w x w'] n show ?thesis by simp
  qed
qed

lemma log_ready_log_update [simp]:
  "log_ready w \<Longrightarrow> log_ready (w\<lparr>fs := (fs w)(log_path w \<mapsto> File t)\<rparr>)"
  by (auto simp: log_ready_def log_path_def)

lemma log_ready_clock_update [simp]: "log_ready (w\<lparr>clock := n\<rparr>) = log_ready w"
  by (simp add: log_ready_def log_path_def)

lemma log_text_log_update [simp]:
  "log_text (w\<lparr>fs := (fs w)(log_path w \<mapsto> File t)\<rparr>) = t"
  by (simp add: log_text_def log_path_def file_text_def)

lemma log_ready_w0 [simp]: "log_ready w0"
  by (simp add: log_ready_def w0_log_ready)

lemma log_ready_deployment_url [simp]: "log_ready (w\<lparr>deployment_url := u\<rparr>) = log_ready w"
  by (simp add: log_ready_def log_path_def)

lemma quiet_run_command:
  "shell env = quiet_shell rc \<Longrightarrow> log_ready w \<Longrightarrow>
   run_command env c w =
     (Inr ''Command executed'',
      w\<lparr>fs := (fs w)(log_path w \<mapsto>
           File (log_text w @ log_line env (clock w) (''COMMAND_RUN: '' @ c))),
        clock := Suc (clock w)\<rparr>)"
  by (simp add: run_command_def subprocess_run_def quiet_shell_def bindE_def log_status_ready
      log_ready_def log_text_def log_path_def)

lemma log_line_shell [simp]: "log_line (env\<lparr>shell := sh\<rparr>) n s = log_line env n s"
  by (simp add: log_line_def)

lemma log_status_shell [simp]: "log_status (env\<lparr>shell := sh\<rparr>) s = log_status env s"
  by (rule ext) (simp add: log_status_def split: sum.splits)

lemma shell_env0 [simp]: "shell env0 = quiet_shell 0"
  by (simp add: env0_def)

subsection \<open>The output of a command\<close>

text \<open>
  C10. What \<open>run_command\<close> returns is decided by the captured standard output and
  standard error alone. When the command has returned and the log can be appended to,
  the method returns \<open>Command executed\<close> if both are empty, and otherwise \<open>OUT: \<close>,
  the output, a newline, \<open>ERR: \<close> and the errors; it leaves the file system of the
  command with one record \<open>COMMAND_RUN\<close> more in the log. When the log cannot be
  appended to, the method raises after the command has run. The return code plays no
  part: with any other return code in its place the method does the same, so a failed
  command that printed nothing looks like a successful one.
\<close>

theorem run_command_output:
  assumes "shell env command (repo_path w) (fs w) = (Inr result, fs')"
  shows "(log_ready (w\<lparr>fs := fs'\<rparr>) \<longrightarrow>
            run_command env command w =
              (Inr (if stdout result = [] \<and> stderr result = [] then ''Command executed''
                    else ''OUT: '' @ stdout result @ ''\<newline>ERR: '' @ stderr result),
               w\<lparr>fs := fs'(log_path w \<mapsto>
                      File (file_text fs' (log_path w) @
                            log_line env (clock w) (''COMMAND_RUN: '' @ command))),
                 clock := Suc (clock w)\<rparr>)) \<and>
         (\<not> log_ready (w\<lparr>fs := fs'\<rparr>) \<longrightarrow>
            (\<exists>e. run_command env command w = (Inl e, w\<lparr>fs := fs'\<rparr>))) \<and>
         run_command (env\<lparr>shell := with_returncode rc (shell env)\<rparr>) command w =
           run_command env command w"
proof (intro conjI impI)
  assume "log_ready (w\<lparr>fs := fs'\<rparr>)"
  with assms show "run_command env command w =
      (Inr (if stdout result = [] \<and> stderr result = [] then ''Command executed''
            else ''OUT: '' @ stdout result @ ''\<newline>ERR: '' @ stderr result),
       w\<lparr>fs := fs'(log_path w \<mapsto>
              File (file_text fs' (log_path w) @
                    log_line env (clock w) (''COMMAND_RUN: '' @ command))),
         clock := Suc (clock w)\<rparr>)"
    by (simp add: run_command_def subprocess_run_def bindE_def log_status_ready log_text_def)
next
  assume "\<not> log_ready (w\<lparr>fs := fs'\<rparr>)"
  from log_status_not_ready [OF this, of env "''COMMAND_RUN: '' @ command"] assms
  show "\<exists>e. run_command env command w = (Inl e, w\<lparr>fs := fs'\<rparr>)"
    by (auto simp: run_command_def subprocess_run_def bindE_def)
next
  show "run_command (env\<lparr>shell := with_returncode rc (shell env)\<rparr>) command w =
        run_command env command w"
    by (cases "shell env command (repo_path w) (fs w)")
       (auto simp: run_command_def subprocess_run_def bindE_def with_returncode_def
          split: sum.splits prod.splits)
qed

theorem run_command_output_witness:
  "shell (env0\<lparr>shell := loud_shell\<rparr>) ''make'' (repo_path w0) (fs w0) =
     (Inr \<lparr>returncode = 2, stdout = ''building\<newline>'', stderr = ''1 warning\<newline>''\<rparr>, fs w0) \<and>
   log_ready (w0\<lparr>fs := fs w0\<rparr>) \<and>
   run_command (env0\<lparr>shell := loud_shell\<rparr>) ''make'' w0 =
     (Inr ''OUT: building\<newline>\<newline>ERR: 1 warning\<newline>'',
      w0\<lparr>fs := (fs w0)(log_path w0 \<mapsto>
             File (log_text w0 @ log_line env0 1 ''COMMAND_RUN: make'')),
         clock := 2\<rparr>) \<and>
   run_command (env0\<lparr>shell := with_returncode 0 loud_shell\<rparr>) ''make'' w0 =
     run_command (env0\<lparr>shell := loud_shell\<rparr>) ''make'' w0 \<and>
   shell (env0\<lparr>shell := quiet_shell 1\<rparr>) ''false'' (repo_path w0) (fs w0) =
     (Inr \<lparr>returncode = 1, stdout = [], stderr = []\<rparr>, fs w0) \<and>
   fst (run_command (env0\<lparr>shell := quiet_shell 1\<rparr>) ''false'' w0) = Inr ''Command executed'' \<and>
   \<not> log_ready (w0\<lparr>fs := (fs w0)(log_path w0 \<mapsto> Dir)\<rparr>) \<and>
   fst (run_command (env0\<lparr>shell := quiet_shell 1\<rparr>) ''false''
          (w0\<lparr>fs := (fs w0)(log_path w0 \<mapsto> Dir)\<rparr>)) \<noteq> Inr ''Command executed''"
proof -
  let ?loud = "env0\<lparr>shell := loud_shell\<rparr>"
  let ?quiet = "env0\<lparr>shell := quiet_shell 1\<rparr>"
  let ?wd = "w0\<lparr>fs := (fs w0)(log_path w0 \<mapsto> Dir)\<rparr>"
  have h1: "shell ?loud ''make'' (repo_path w0) (fs w0) =
      (Inr \<lparr>returncode = 2, stdout = ''building\<newline>'', stderr = ''1 warning\<newline>''\<rparr>, fs w0)"
    by (simp add: loud_shell_def)
  have h2: "shell ?quiet ''false'' (repo_path w0) (fs w0) =
      (Inr \<lparr>returncode = 1, stdout = [], stderr = []\<rparr>, fs w0)"
    by (simp add: quiet_shell_def)
  have h3: "shell ?quiet ''false'' (repo_path ?wd) (fs ?wd) =
      (Inr \<lparr>returncode = 1, stdout = [], stderr = []\<rparr>, fs ?wd)"
    by (simp add: quiet_shell_def)
  have nr: "\<not> log_ready ?wd"
    by (simp add: log_ready_def)
  from run_command_output [OF h1, of 0] run_command_output [OF h2, of 0]
    run_command_output [OF h3, of 0] h1 h2 nr
  show ?thesis
    by (auto simp: log_text_def w0_fields)
qed

subsection \<open>Deployment\<close>

lemma deploy_other:
  assumes eq: "\<And>e. deploy_project e t = bindE (log_status e s) (\<lambda>_. returnE m)"
  shows "deploy_project (env\<lparr>shell := sh\<rparr>) t w = deploy_project env t w \<and>
      deployment_url (snd (deploy_project env t w)) = deployment_url w \<and>
      (log_ready w \<longrightarrow>
         fst (deploy_project env t w) = Inr m \<and>
         log_text (snd (deploy_project env t w)) = log_text w @ log_line env (clock w) s)"
proof (intro conjI impI)
  show "deploy_project (env\<lparr>shell := sh\<rparr>) t w = deploy_project env t w"
    by (simp add: eq)
  show "deployment_url (snd (deploy_project env t w)) = deployment_url w"
    by (cases "log_status env s w")
       (auto simp: eq bindE_def split: sum.splits dest: log_status_Inl log_status_Inr)
  assume "log_ready w"
  then have ls: "log_status env s w =
      (Inr (), w\<lparr>fs := (fs w)(log_path w \<mapsto> File (log_text w @ log_line env (clock w) s)),
                clock := Suc (clock w)\<rparr>)"
    by (simp add: log_status_ready)
  show "fst (deploy_project env t w) = Inr m"
    by (simp add: eq bindE_def ls)
  show "log_text (snd (deploy_project env t w)) = log_text w @ log_line env (clock w) s"
    by (simp add: eq bindE_def ls)
qed

lemma deploy_known:
  assumes eq: "deploy_project env t =
      bindE (log_status env s) (\<lambda>_.
      bindE (run_command env recipe) (\<lambda>result.
      bindE (set_deployment_url endpoint) (\<lambda>url. returnE (check_mark @ label @ url))))"
    and ret: "deploy_project env t w = (Inr msg, w')"
  shows "(\<exists>w1 out w2.
          log_status env s w = (Inr (), w1) \<and>
          run_command env recipe w1 = (Inr out, w2) \<and>
          w' = w2\<lparr>deployment_url := Some endpoint\<rparr>) \<and>
      deployment_url w' = Some endpoint \<and>
      msg = check_mark @ label @ endpoint"
proof -
  from ret obtain w1 out w2 where
    s: "log_status env s w = (Inr (), w1)"
      "run_command env recipe w1 = (Inr out, w2)"
      "w' = w2\<lparr>deployment_url := Some endpoint\<rparr>" "msg = check_mark @ label @ endpoint"
    unfolding eq by (auto simp: bindE_eq_Inr set_deployment_url_def)
  then show ?thesis
    by auto
qed

lemma deploy_docker_w0:
  "fst (deploy_project env0 ''docker'' w0) =
     Inr (check_mark @ '' Docker Deployed: http://localhost:3000'')"
  by (simp add: deploy_project_def bindE_def log_status_ready quiet_run_command [where rc = 0]
      set_deployment_url_def w0_fields eval_nat_numeral)

lemma deploy_github_w0:
  "deploy_project env0 ''github_pages'' w0 =
     (Inr (check_mark @ '' GitHub Pages Deployed: https://yourusername.github.io/your-repo''),
      w0\<lparr>fs := (fs w0)(log_path w0 \<mapsto> File (log_text w0 @
               log_line env0 1 ''DEPLOYMENT_STARTED: github_pages'' @
               log_line env0 2 ''COMMAND_RUN: gh pages deploy --branch main'')),
         clock := 3,
         deployment_url := Some ''https://yourusername.github.io/your-repo''\<rparr>)"
  by (simp add: deploy_project_def bindE_def log_status_ready quiet_run_command [where rc = 0]
      set_deployment_url_def w0_fields eval_nat_numeral)

lemma deploy_vercel_w0:
  "fst (deploy_project env0 ''vercel'' w0) =
     Inr (check_mark @ '' Vercel Deployed: https://your-app.vercel.app'')"
  by (simp add: deploy_project_def bindE_def log_status_ready quiet_run_command [where rc = 0]
      set_deployment_url_def w0_fields eval_nat_numeral)

text \<open>
  C3 fails for a deploy type other than the three the method knows: for
  \<open>heroku\<close> the result is \<open>Deployment initiated: heroku\<close>, which holds no
  endpoint, the endpoint field stays \<open>None\<close>, and no shell command is run (a shell
  that raises on every command makes no difference).
\<close>

theorem deploy_heroku_sets_no_endpoint:
  "fst (deploy_project env0 ''heroku'' w0) = Inr (check_mark @ '' Deployment initiated: heroku'') \<and>
   deployment_url (snd (deploy_project env0 ''heroku'' w0)) = None \<and>
   deploy_project (env0\<lparr>shell := \<lambda>command d f. (Inl (Raised ''no shell''), f)\<rparr>) ''heroku'' w0 =
     deploy_project env0 ''heroku'' w0"
  by (simp add: deploy_project_def bindE_def log_status_ready w0_fields)

text \<open>
  C3, amended. For \<open>github_pages\<close>, \<open>docker\<close> and \<open>vercel\<close>, a
  \<open>deploy_project\<close> that returns has logged \<open>DEPLOYMENT_STARTED\<close>, run the
  fixed shell recipe of the type through \<open>run_command\<close>, overwritten the endpoint
  field with the fixed endpoint of the type, and returns the confirmation that ends
  in that endpoint. For any other string it runs no shell command (its result and the
  world do not depend on the shell), leaves the endpoint field as it is, logs
  \<open>DEPLOYMENT_STARTED\<close> and returns \<open>Deployment initiated: \<close> and the type.
\<close>

theorem deploy_project_by_type:
  "(deploy_type \<notin> {''github_pages'', ''docker'', ''vercel''} \<longrightarrow>
      deploy_project (env\<lparr>shell := sh\<rparr>) deploy_type w = deploy_project env deploy_type w \<and>
      deployment_url (snd (deploy_project env deploy_type w)) = deployment_url w \<and>
      (log_ready w \<longrightarrow>
         fst (deploy_project env deploy_type w) =
           Inr (check_mark @ '' Deployment initiated: '' @ deploy_type) \<and>
         log_text (snd (deploy_project env deploy_type w)) =
           log_text w @ log_line env (clock w) (''DEPLOYMENT_STARTED: '' @ deploy_type))) \<and>
   (deploy_project env ''github_pages'' w = (Inr msg, w') \<longrightarrow>
      (\<exists>w1 out w2.
          log_status env (''DEPLOYMENT_STARTED: '' @ ''github_pages'') w = (Inr (), w1) \<and>
          run_command env ''gh pages deploy --branch main'' w1 = (Inr out, w2) \<and>
          w' = w2\<lparr>deployment_url := Some ''https://yourusername.github.io/your-repo''\<rparr>) \<and>
      deployment_url w' = Some ''https://yourusername.github.io/your-repo'' \<and>
      msg = check_mark @ '' GitHub Pages Deployed: '' @ ''https://yourusername.github.io/your-repo'') \<and>
   (deploy_project env ''docker'' w = (Inr msg, w') \<longrightarrow>
      (\<exists>w1 out w2.
          log_status env (''DEPLOYMENT_STARTED: '' @ ''docker'') w = (Inr (), w1) \<and>
          run_command env ''docker build -t app . && docker run -d -p 3000:3000 app'' w1 =
            (Inr out, w2) \<and>
          w' = w2\<lparr>deployment_url := Some ''http://localhost:3000''\<rparr>) \<and>
      deployment_url w' = Some ''http://localhost:3000'' \<and>
      msg = check_mark @ '' Docker Deployed: '' @ ''http://localhost:3000'') \<and>
   (deploy_project env ''vercel'' w = (Inr msg, w') \<longrightarrow>
      (\<exists>w1 out w2.
          log_status env (''DEPLOYMENT_STARTED: '' @ ''vercel'') w = (Inr (), w1) \<and>
          run_command env ''npx vercel --prod'' w1 = (Inr out, w2) \<and>
          w' = w2\<lparr>deployment_url := Some ''https://your-app.vercel.app''\<rparr>) \<and>
      deployment_url w' = Some ''https://your-app.vercel.app'' \<and>
      msg = check_mark @ '' Vercel Deployed: '' @ ''https://your-app.vercel.app'')"
  (is "(?other \<longrightarrow> ?O) \<and> (?github \<longrightarrow> ?G) \<and> (?docker \<longrightarrow> ?D) \<and> (?vercel \<longrightarrow> ?V)")
proof (rule conjI [OF impI conjI [OF impI conjI [OF impI impI]]])
  assume ?other
  then have "deploy_project e deploy_type =
      bindE (log_status e (''DEPLOYMENT_STARTED: '' @ deploy_type))
        (\<lambda>_. returnE (check_mark @ '' Deployment initiated: '' @ deploy_type))" for e
    by (simp add: deploy_project_def)
  then show ?O
    by (rule deploy_other)
next
  assume ?github
  with _ show ?G
    by (rule deploy_known) (simp add: deploy_project_def)
next
  assume ?docker
  with _ show ?D
    by (rule deploy_known) (simp add: deploy_project_def)
next
  assume ?vercel
  with _ show ?V
    by (rule deploy_known) (simp add: deploy_project_def)
qed

theorem deploy_project_by_type_witness:
  "''heroku'' \<notin> {''github_pages'', ''docker'', ''vercel''} \<and> log_ready w0 \<and>
   deploy_project (env0\<lparr>shell := \<lambda>command d f. (Inl (Raised ''no shell''), f)\<rparr>) ''heroku'' w0 =
     deploy_project env0 ''heroku'' w0 \<and>
   log_text (snd (deploy_project env0 ''heroku'' w0)) =
     log_text w0 @ log_line env0 1 ''DEPLOYMENT_STARTED: heroku'' \<and>
   fst (deploy_project env0 ''docker'' w0) =
     Inr (check_mark @ '' Docker Deployed: http://localhost:3000'') \<and>
   deployment_url (snd (deploy_project env0 ''docker'' w0)) = Some ''http://localhost:3000'' \<and>
   fst (deploy_project env0 ''github_pages'' w0) =
     Inr (check_mark @ '' GitHub Pages Deployed: https://yourusername.github.io/your-repo'') \<and>
   deployment_url (snd (deploy_project env0 ''github_pages'' w0)) =
     Some ''https://yourusername.github.io/your-repo'' \<and>
   fst (deploy_project env0 ''vercel'' w0) =
     Inr (check_mark @ '' Vercel Deployed: https://your-app.vercel.app'') \<and>
   deployment_url (snd (deploy_project env0 ''vercel'' w0)) = Some ''https://your-app.vercel.app''"
proof -
  have d: "deploy_project env0 ''docker'' w0 =
      (Inr (check_mark @ '' Docker Deployed: http://localhost:3000''),
       snd (deploy_project env0 ''docker'' w0))"
    using deploy_docker_w0 by (simp add: prod_eq_iff)
  have g: "deploy_project env0 ''github_pages'' w0 =
      (Inr (check_mark @ '' GitHub Pages Deployed: https://yourusername.github.io/your-repo''),
       snd (deploy_project env0 ''github_pages'' w0))"
    by (simp add: deploy_github_w0)
  have v: "deploy_project env0 ''vercel'' w0 =
      (Inr (check_mark @ '' Vercel Deployed: https://your-app.vercel.app''),
       snd (deploy_project env0 ''vercel'' w0))"
    using deploy_vercel_w0 by (simp add: prod_eq_iff)
  from deploy_project_by_type [where deploy_type = "''heroku''" and env = env0 and w = w0
      and sh = "\<lambda>command d f. (Inl (Raised ''no shell''), f)"
      and msg = "check_mark @ '' Docker Deployed: http://localhost:3000''"
      and w' = "snd (deploy_project env0 ''docker'' w0)"] d w0_fields(5)
  have 1: "deploy_project (env0\<lparr>shell := \<lambda>command d f. (Inl (Raised ''no shell''), f)\<rparr>) ''heroku'' w0 =
     deploy_project env0 ''heroku'' w0"
    "log_text (snd (deploy_project env0 ''heroku'' w0)) =
     log_text w0 @ log_line env0 1 ''DEPLOYMENT_STARTED: heroku''"
    "deployment_url (snd (deploy_project env0 ''docker'' w0)) = Some ''http://localhost:3000''"
    by simp_all
  from deploy_project_by_type [where deploy_type = "''heroku''" and env = env0 and w = w0
      and msg = "check_mark @ '' GitHub Pages Deployed: https://yourusername.github.io/your-repo''"
      and w' = "snd (deploy_project env0 ''github_pages'' w0)"] g
  have 2: "deployment_url (snd (deploy_project env0 ''github_pages'' w0)) =
     Some ''https://yourusername.github.io/your-repo''"
    by simp
  from deploy_project_by_type [where deploy_type = "''heroku''" and env = env0 and w = w0
      and msg = "check_mark @ '' Vercel Deployed: https://your-app.vercel.app''"
      and w' = "snd (deploy_project env0 ''vercel'' w0)"] v
  have 3: "deployment_url (snd (deploy_project env0 ''vercel'' w0)) =
     Some ''https://your-app.vercel.app''"
    by simp
  from 1 2 3 deploy_docker_w0 deploy_vercel_w0 show ?thesis
    by (simp add: deploy_github_w0)
qed

subsection \<open>Creating directories\<close>

lemma is_file_simps [simp]:
  "\<not> is_file None" "\<not> is_file (Some Dir)" "is_file (Some (File c))"
  by (simp_all add: is_file_def)

lemma with_dirs_Nil [simp]: "with_dirs f [] = f"
  by (rule ext) (simp add: with_dirs_def)

lemma with_dirs_Cons_Dir: "f q = Some Dir \<Longrightarrow> with_dirs f (q # qs) = with_dirs f qs"
  by (rule ext) (auto simp: with_dirs_def)

lemma with_dirs_Cons_None: "f q = None \<Longrightarrow> with_dirs f (q # qs) = with_dirs (f(q \<mapsto> Dir)) qs"
  by (rule ext) (auto simp: with_dirs_def)

lemma with_dirs_Dir: "f q = Some Dir \<Longrightarrow> with_dirs f qs q = Some Dir"
  by (simp add: with_dirs_def)

lemma with_dirs_way: "q \<in> set qs \<Longrightarrow> \<not> is_file (f q) \<Longrightarrow> with_dirs f qs q = Some Dir"
  by (cases "f q") (auto simp: with_dirs_def is_file_def split: node.splits)

lemma with_dirs_other: "q \<notin> set qs \<Longrightarrow> with_dirs f qs q = f q"
  by (simp add: with_dirs_def)

lemma with_dirs_not_Dir: "with_dirs f qs q \<noteq> Some Dir \<Longrightarrow> f q \<noteq> Some Dir \<and> (q \<in> set qs \<longrightarrow> is_file (f q))"
  by (cases "f q") (auto simp: with_dirs_def is_file_def split: node.splits if_splits)

lemma file_text_with_dirs [simp]: "file_text (with_dirs f qs) q = file_text f q"
  by (simp add: file_text_def with_dirs_def)

text \<open>One step of \<open>os.makedirs\<close>, by what stands at the next place.\<close>

lemma not_a_directory_not_Hang [simp]: "not_a_directory name k cs \<noteq> Hang"
  by (simp add: not_a_directory_def EMBEDDED_NUL_def ENOTDIR_def)

lemma mkdir_p_step_None:
  "\<not> has_nul c \<Longrightarrow> f (walk_step cur c) = None \<Longrightarrow> g = f(walk_step cur c \<mapsto> Dir) \<Longrightarrow>
   mkdir_p f name i made cur (c # cs) = mkdir_p g name (Suc i) True (walk_step cur c) cs"
  by (simp add: Let_def)

lemma mkdir_p_step_Dir:
  "\<not> has_nul c \<Longrightarrow> f (walk_step cur c) = Some Dir \<Longrightarrow>
   mkdir_p f name i made cur (c # cs) = mkdir_p f name (Suc i) made (walk_step cur c) cs"
  by (simp add: Let_def)

lemma mkdir_p_step_File:
  "f (walk_step cur c) = Some (File t) \<Longrightarrow>
   snd (mkdir_p f name i made cur (c # cs)) = f \<and>
   fst (mkdir_p f name i made cur (c # cs)) \<noteq> Some Hang \<and>
   (fst (mkdir_p f name i made cur (c # cs)) = None \<longrightarrow> cs \<noteq> [])"
  by (auto simp: Let_def EMBEDDED_NUL_def EEXIST_def)

lemma mkdir_p_step_nul:
  "has_nul c \<Longrightarrow> mkdir_p f name i made cur (c # cs) = (Some EMBEDDED_NUL, f)"
  by simp

text \<open>
  When no name holds a NUL byte and no regular file stands on the way,
  \<open>os.makedirs\<close> returns, and has made a directory of every empty place on the way.
\<close>

lemma mkdir_p_free:
  "list_all (\<lambda>c. \<not> has_nul c) cs \<Longrightarrow> list_all (\<lambda>q. \<not> is_file (f q)) (way cur cs) \<Longrightarrow>
   mkdir_p f name i made cur cs = (None, with_dirs f (way cur cs))"
proof (induction cs arbitrary: f cur i made)
  case Nil
  show ?case by simp
next
  case (Cons c cs)
  let ?n = "walk_step cur c"
  from Cons.prems have nul: "\<not> has_nul c" "list_all (\<lambda>c. \<not> has_nul c) cs"
    and nf: "\<not> is_file (f ?n)" and rest: "list_all (\<lambda>q. \<not> is_file (f q)) (way ?n cs)"
    by simp_all
  show ?case
  proof (cases "f ?n")
    case None
    define g where "g = f(?n \<mapsto> Dir)"
    from rest have "list_all (\<lambda>q. \<not> is_file (g q)) (way ?n cs)"
      by (simp add: list_all_iff g_def)
    with nul(2) have "mkdir_p g name (Suc i) True ?n cs = (None, with_dirs g (way ?n cs))"
      by (rule Cons.IH)
    moreover have "mkdir_p f name i made cur (c # cs) = mkdir_p g name (Suc i) True ?n cs"
      using nul(1) None g_def by (rule mkdir_p_step_None)
    moreover have "with_dirs f (way cur (c # cs)) = with_dirs g (way ?n cs)"
      using None by (simp add: with_dirs_Cons_None g_def)
    ultimately show ?thesis
      by (simp only:)
  next
    case (Some x)
    with nf have d: "f ?n = Some Dir"
      by (cases x) simp_all
    from nul(2) rest have "mkdir_p f name (Suc i) made ?n cs = (None, with_dirs f (way ?n cs))"
      by (rule Cons.IH)
    moreover have "mkdir_p f name i made cur (c # cs) = mkdir_p f name (Suc i) made ?n cs"
      using nul(1) d by (rule mkdir_p_step_Dir)
    moreover have "with_dirs f (way cur (c # cs)) = with_dirs f (way ?n cs)"
      using d by (simp add: with_dirs_Cons_Dir)
    ultimately show ?thesis
      by (simp only:)
  qed
qed

text \<open>
  When \<open>os.makedirs\<close> returns, either that was the case, or it has passed over a
  regular file, and then no path that goes on along these names can be opened.
\<close>

lemma resolve_through_file:
  "f nxt = Some (File t) \<Longrightarrow> cs \<noteq> [] \<Longrightarrow> resolve f nm nxt cs \<noteq> Inr p"
  by (cases cs) simp_all

lemma resolve_up:
  "\<forall>nm r p. resolve f nm (walk_step cur c) (cs @ [r]) \<noteq> Inr p \<Longrightarrow>
   \<forall>nm r p. resolve f nm cur ((c # cs) @ [r]) \<noteq> Inr p"
  by (auto split: option.splits node.splits)

lemma mkdir_p_None:
  "mkdir_p f name i made cur cs = (None, f1) \<Longrightarrow>
   (list_all (\<lambda>c. \<not> has_nul c) cs \<and> list_all (\<lambda>q. \<not> is_file (f q)) (way cur cs) \<and>
    f1 = with_dirs f (way cur cs)) \<or>
   (\<forall>nm r p. resolve f1 nm cur (cs @ [r]) \<noteq> Inr p)"
proof (induction cs arbitrary: f cur i made)
  case Nil
  then show ?case by simp
next
  case (Cons c cs)
  let ?n = "walk_step cur c"
  have nul: "\<not> has_nul c"
    using Cons.prems mkdir_p_step_nul [of c f name i made cur cs] by auto
  show ?case
  proof (cases "f ?n")
    case None
    define g where "g = f(?n \<mapsto> Dir)"
    have "mkdir_p f name i made cur (c # cs) = mkdir_p g name (Suc i) True ?n cs"
      using nul None g_def by (rule mkdir_p_step_None)
    with Cons.prems have "mkdir_p g name (Suc i) True ?n cs = (None, f1)"
      by (simp only:)
    then have "(list_all (\<lambda>c. \<not> has_nul c) cs \<and> list_all (\<lambda>q. \<not> is_file (g q)) (way ?n cs) \<and>
        f1 = with_dirs g (way ?n cs)) \<or>
       (\<forall>nm r p. resolve f1 nm ?n (cs @ [r]) \<noteq> Inr p)"
      by (rule Cons.IH)
    then show ?thesis
    proof
      assume a: "list_all (\<lambda>c. \<not> has_nul c) cs \<and> list_all (\<lambda>q. \<not> is_file (g q)) (way ?n cs) \<and>
          f1 = with_dirs g (way ?n cs)"
      then have "list_all (\<lambda>q. \<not> is_file (f q)) (way ?n cs)"
        using None by (auto simp: list_all_iff g_def split: if_splits)
      moreover have "with_dirs f (way cur (c # cs)) = with_dirs g (way ?n cs)"
        using None by (simp add: with_dirs_Cons_None g_def)
      ultimately show ?thesis
        using a None nul by simp
    next
      assume "\<forall>nm r p. resolve f1 nm ?n (cs @ [r]) \<noteq> Inr p"
      then have "\<forall>nm r p. resolve f1 nm cur ((c # cs) @ [r]) \<noteq> Inr p"
        by (rule resolve_up)
      then show ?thesis ..
    qed
  next
    case (Some x)
    show ?thesis
    proof (cases x)
      case Dir
      with Some have d: "f ?n = Some Dir"
        by simp
      have "mkdir_p f name i made cur (c # cs) = mkdir_p f name (Suc i) made ?n cs"
        using nul d by (rule mkdir_p_step_Dir)
      with Cons.prems have "mkdir_p f name (Suc i) made ?n cs = (None, f1)"
        by (simp only:)
      then have "(list_all (\<lambda>c. \<not> has_nul c) cs \<and> list_all (\<lambda>q. \<not> is_file (f q)) (way ?n cs) \<and>
          f1 = with_dirs f (way ?n cs)) \<or>
         (\<forall>nm r p. resolve f1 nm ?n (cs @ [r]) \<noteq> Inr p)"
        by (rule Cons.IH)
      then show ?thesis
      proof
        assume "list_all (\<lambda>c. \<not> has_nul c) cs \<and> list_all (\<lambda>q. \<not> is_file (f q)) (way ?n cs) \<and>
            f1 = with_dirs f (way ?n cs)"
        with d nul show ?thesis
          by (simp add: with_dirs_Cons_Dir)
      next
        assume "\<forall>nm r p. resolve f1 nm ?n (cs @ [r]) \<noteq> Inr p"
        then have "\<forall>nm r p. resolve f1 nm cur ((c # cs) @ [r]) \<noteq> Inr p"
          by (rule resolve_up)
        then show ?thesis ..
      qed
    next
      case (File t)
      with Some have "f ?n = Some (File t)"
        by simp
      from mkdir_p_step_File [where f = f and cur = cur and c = c, OF this, of name i made cs]
        Cons.prems
      have "f1 = f" and "cs \<noteq> []"
        by auto
      with Some File have "resolve f1 nm ?n (cs @ [r]) \<noteq> Inr p" for nm r p
        by (intro resolve_through_file) simp_all
      then have "\<forall>nm r p. resolve f1 nm cur ((c # cs) @ [r]) \<noteq> Inr p"
        by (intro resolve_up) blast
      then show ?thesis ..
    qed
  qed
qed

lemma mkdir_p_not_Hang: "fst (mkdir_p f name i made cur cs) \<noteq> Some Hang"
proof (induction cs arbitrary: f cur i made)
  case Nil
  show ?case by simp
next
  case (Cons c cs)
  let ?n = "walk_step cur c"
  show ?case
  proof (cases "has_nul c")
    case True
    then show ?thesis
      by (simp add: EMBEDDED_NUL_def)
  next
    case nul: False
    show ?thesis
    proof (cases "f ?n")
      case None
      define g where "g = f(?n \<mapsto> Dir)"
      have "mkdir_p f name i made cur (c # cs) = mkdir_p g name (Suc i) True ?n cs"
        using nul None g_def by (rule mkdir_p_step_None)
      then show ?thesis
        by (simp only: Cons.IH not_False_eq_True)
    next
      case (Some x)
      show ?thesis
      proof (cases x)
        case Dir
        with Some have "f ?n = Some Dir"
          by simp
        with nul have "mkdir_p f name i made cur (c # cs) = mkdir_p f name (Suc i) made ?n cs"
          by (rule mkdir_p_step_Dir)
        then show ?thesis
          by (simp only: Cons.IH not_False_eq_True)
      next
        case (File t)
        with Some have "f ?n = Some (File t)"
          by simp
        from mkdir_p_step_File [where f = f and cur = cur and c = c, OF this] show ?thesis
          by blast
      qed
    qed
  qed
qed

lemma os_makedirs_not_Hang: "os_makedirs name w \<noteq> (Inl Hang, w')"
  using mkdir_p_not_Hang [of "fs w" name 0 False "start_dir (cwd w) name" "components name"]
  by (auto simp: os_makedirs_def makedirs_def ENOENT_def split: prod.splits option.splits if_splits)

text \<open>Whatever \<open>os.makedirs\<close> does, the text of every regular file is as before.\<close>

lemma mkdir_p_file_text: "file_text (snd (mkdir_p f name i made cur cs)) q = file_text f q"
proof (induction cs arbitrary: f cur i made)
  case Nil
  show ?case by simp
next
  case (Cons c cs)
  let ?n = "walk_step cur c"
  show ?case
  proof (cases "has_nul c")
    case True
    then show ?thesis
      by simp
  next
    case nul: False
    show ?thesis
    proof (cases "f ?n")
      case None
      define g where "g = f(?n \<mapsto> Dir)"
      have "mkdir_p f name i made cur (c # cs) = mkdir_p g name (Suc i) True ?n cs"
        using nul None g_def by (rule mkdir_p_step_None)
      moreover have "file_text g q = file_text f q"
        using None by (simp add: file_text_def g_def)
      ultimately show ?thesis
        by (simp only: Cons.IH)
    next
      case (Some x)
      show ?thesis
      proof (cases x)
        case Dir
        with Some have "f ?n = Some Dir"
          by simp
        with nul have "mkdir_p f name i made cur (c # cs) = mkdir_p f name (Suc i) made ?n cs"
          by (rule mkdir_p_step_Dir)
        then show ?thesis
          by (simp only: Cons.IH)
      next
        case (File t)
        with Some have "f ?n = Some (File t)"
          by simp
        from mkdir_p_step_File [where f = f and cur = cur and c = c, OF this, of name i made cs]
        show ?thesis
          by simp
      qed
    qed
  qed
qed

lemma makedirs_file_text: "file_text (snd (makedirs f d name)) q = file_text f q"
  by (simp add: makedirs_def mkdir_p_file_text)

lemma makedirs_None:
  "makedirs f d name = (None, f1) \<longleftrightarrow>
     name \<noteq> [] \<and> f (start_dir d name) = Some Dir \<and>
     mkdir_p f name 0 False (start_dir d name) (components name) = (None, f1)"
  by (simp add: makedirs_def)

subsection \<open>Opening a file\<close>

lemma resolve_way:
  "f cur = Some Dir \<Longrightarrow> list_all (\<lambda>q. f q = Some Dir) (way cur cs) \<Longrightarrow>
   resolve f nm cur (cs @ [r]) = Inr (walk_step (foldl walk_step cur cs) r)"
  by (induction cs arbitrary: cur) simp_all

lemma foldl_walk_step_way: "foldl walk_step cur cs = last (cur # way cur cs)"
  by (induction cs arbitrary: cur) simp_all

lemma open_target_Inr:
  "open_target f d name = Inr q \<longleftrightarrow>
     \<not> has_nul name \<and> name \<noteq> [] \<and>
     resolve f name (start_dir d name) (components name) = Inr q \<and>
     f q \<noteq> Some Dir \<and> last name \<noteq> CHR ''/''"
  by (auto simp: open_target_def resolve_path_def split: sum.splits)

lemma open_target_is_target: "open_target f d name = Inr q \<Longrightarrow> q = target d name"
  by (auto simp: open_target_Inr target_def dest: resolve_Inr)

lemma universal_newlines_plain: "CHR 0x0D \<notin> set c \<Longrightarrow> universal_newlines c = c"
  by (induction c rule: universal_newlines.induct) auto

subsection \<open>Path strings\<close>

lemma segments_nonempty [simp]: "segments s \<noteq> []"
  by (induction s) (auto split: list.splits)

lemma segments_slash: "segments (a @ CHR ''/'' # b) = segments a @ segments b"
proof (induction a)
  case Nil
  show ?case by simp
next
  case (Cons c a)
  then show ?case
    by (cases "segments a") auto
qed

lemma segments_no_slash: "CHR ''/'' \<notin> set n \<Longrightarrow> segments n = [n]"
  by (induction n) auto

lemma components_Nil [simp]: "components [] = []"
  by (simp add: components_def)

lemma components_slash: "components (a @ CHR ''/'' # b) = components a @ components b"
  by (simp add: components_def segments_slash)

lemma components_name: "n \<noteq> [] \<Longrightarrow> CHR ''/'' \<notin> set n \<Longrightarrow> components n = [n]"
  by (simp add: components_def segments_no_slash)

lemma components_strip:
  "components (rev (dropWhile (\<lambda>c. c = CHR ''/'') xs)) = components (rev xs)"
proof (induction xs)
  case Nil
  show ?case by simp
next
  case (Cons c xs)
  then show ?case
    using components_slash [of "rev xs" "[]"] by simp
qed

lemma set_segments: "c \<in> set (segments s) \<Longrightarrow> set c \<subseteq> set s"
proof (induction s arbitrary: c)
  case Nil
  then show ?case by simp
next
  case (Cons a s)
  show ?case
  proof (cases "a = CHR ''/''")
    case True
    with Cons show ?thesis
      by auto
  next
    case False
    obtain s1 ss where s: "segments s = s1 # ss"
      by (cases "segments s") simp_all
    with Cons.IH have "set s1 \<subseteq> set s" and "\<And>c. c \<in> set ss \<Longrightarrow> set c \<subseteq> set s"
      by simp_all
    with Cons.prems False s show ?thesis
      by auto
  qed
qed

lemma set_components: "c \<in> set (components s) \<Longrightarrow> set c \<subseteq> set s"
  by (simp add: components_def set_segments)

text \<open>
  A path string is its part up to the last slash and its last name; the directory part
  of \<open>os.path.dirname\<close> has the names of the first, and starts where the path starts.
\<close>

lemma split_path:
  "p = rev (dropWhile (\<lambda>c. c \<noteq> CHR ''/'') (rev p)) @ rev (takeWhile (\<lambda>c. c \<noteq> CHR ''/'') (rev p))"
  by (metis rev_append rev_rev_ident takeWhile_dropWhile_id)

lemma components_dirname:
  assumes "p \<noteq> []" and "last p \<noteq> CHR ''/''"
  shows "components p =
           components (os_path_dirname p) @ [rev (takeWhile (\<lambda>c. c \<noteq> CHR ''/'') (rev p))]"
proof -
  let ?head = "rev (dropWhile (\<lambda>c. c \<noteq> CHR ''/'') (rev p))"
  let ?base = "rev (takeWhile (\<lambda>c. c \<noteq> CHR ''/'') (rev p))"
  from assms have "hd (rev p) \<noteq> CHR ''/''" and "rev p \<noteq> []"
    by (simp_all add: hd_rev)
  then have b: "?base \<noteq> []"
    by (cases "rev p") auto
  have ns: "CHR ''/'' \<notin> set ?base"
    by (auto dest: set_takeWhileD)
  have d: "components (os_path_dirname p) = components ?head"
    using components_strip [of "rev ?head"] by (simp add: os_path_dirname_def Let_def)
  have "components (?head @ ?base) = components ?head @ components ?base"
  proof (cases "?head = []")
    case True
    show ?thesis
      by (simp only: True append_Nil components_Nil)
  next
    case False
    then have "dropWhile (\<lambda>c. c \<noteq> CHR ''/'') (rev p) \<noteq> []"
      by simp
    then have "hd (dropWhile (\<lambda>c. c \<noteq> CHR ''/'') (rev p)) = CHR ''/''"
      using hd_dropWhile [of "\<lambda>c. c \<noteq> CHR ''/''" "rev p"] by simp
    with False obtain h where h: "?head = h @ ''/''"
      by (metis (no_types, lifting) append_butlast_last_id last_rev rev_is_Nil_conv)
    have "components (h @ CHR ''/'' # ?base) = components h @ components ?base"
      by (rule components_slash)
    moreover have "components (h @ ''/'') = components h"
      using components_slash [of h "[]"] by simp
    ultimately show ?thesis
      by (simp add: h)
  qed
  with arg_cong [OF split_path, of components p]
  have "components p = components ?head @ components ?base"
    by (simp only:)
  with d b ns show ?thesis
    by (simp add: components_name)
qed

lemma hd_strip:
  "rev (dropWhile P (rev h)) \<noteq> [] \<Longrightarrow> hd (rev (dropWhile P (rev h))) = hd h"
  by (metis hd_append2 rev_append rev_rev_ident takeWhile_dropWhile_id)

lemma hd_dirname: "os_path_dirname p \<noteq> [] \<Longrightarrow> hd (os_path_dirname p) = hd p"
proof -
  let ?head = "rev (dropWhile (\<lambda>c. c \<noteq> CHR ''/'') (rev p))"
  assume a: "os_path_dirname p \<noteq> []"
  then have h: "?head \<noteq> []"
    by (auto simp: os_path_dirname_def Let_def split: if_splits)
  then have 1: "hd ?head = hd p"
    by (rule hd_strip)
  show ?thesis
  proof (cases "list_all (\<lambda>c. c = CHR ''/'') ?head")
    case True
    with h 1 show ?thesis
      by (simp add: os_path_dirname_def Let_def)
  next
    case False
    with h a have "rev (dropWhile (\<lambda>c. c = CHR ''/'') (rev ?head)) \<noteq> []"
      by (simp add: os_path_dirname_def Let_def)
    from hd_strip [OF this] False h 1 show ?thesis
      by (simp add: os_path_dirname_def Let_def)
  qed
qed

lemma dirname_Nil [simp]: "os_path_dirname [] = []"
  by (simp add: os_path_dirname_def)

lemma start_dir_dirname:
  "os_path_dirname p \<noteq> [] \<Longrightarrow> start_dir d (os_path_dirname p) = start_dir d p"
  using hd_dirname [of p] by (auto simp: start_dir_def)

lemma set_dirname: "set (os_path_dirname p) \<subseteq> set p"
  by (auto simp: os_path_dirname_def Let_def dest!: set_dropWhileD)

lemma has_nul_components:
  "\<not> has_nul p \<Longrightarrow> list_all (\<lambda>c. \<not> has_nul c) (components (os_path_dirname p))"
  using set_components [of _ "os_path_dirname p"] set_dirname [of p]
  by (auto simp: has_nul_def list_all_iff)

lemma target_dirname:
  assumes "os_path_dirname p \<noteq> []" and "last p \<noteq> CHR ''/''"
  shows "target d p =
     walk_step (target d (os_path_dirname p)) (rev (takeWhile (\<lambda>c. c \<noteq> CHR ''/'') (rev p)))"
proof -
  from assms(1) have "p \<noteq> []"
    by auto
  from components_dirname [OF this assms(2)] start_dir_dirname [OF assms(1), of d]
  show ?thesis
    by (simp add: target_def)
qed

subsection \<open>The round trip of a created file\<close>

lemma os_makedirs_Inr:
  "os_makedirs d w = (Inr x, w1) \<longleftrightarrow>
   (\<exists>f1. makedirs (fs w) (cwd w) d = (None, f1) \<and> w1 = w\<lparr>fs := f1\<rparr>)"
  by (auto simp: os_makedirs_def split: prod.splits option.splits)

lemma open_write_Inr:
  "open_write p C w = (Inr x, w1) \<longleftrightarrow>
   (\<exists>q. open_target (fs w) (cwd w) p = Inr q \<and> w1 = w\<lparr>fs := (fs w)(q \<mapsto> File C)\<rparr>)"
  by (auto simp: open_write_def split: sum.splits)

lemma create_body_Inr:
  "bindE (os_makedirs d) (\<lambda>_. bindE (open_write p C) (\<lambda>_.
     bindE (log_status env s) (\<lambda>_. returnE r0))) w = (Inr x, w') \<longleftrightarrow>
   (\<exists>f1 q. makedirs (fs w) (cwd w) d = (None, f1) \<and> open_target f1 (cwd w) p = Inr q \<and>
      log_status env s (w\<lparr>fs := f1(q \<mapsto> File C)\<rparr>) = (Inr (), w') \<and> x = r0)"
  by (auto simp: bindE_eq_Inr os_makedirs_Inr open_write_Inr)

lemma create_file_steps:
  "create_file env P C w = (Inr r, w') \<longleftrightarrow>
   (\<exists>f1 q. makedirs (fs w) (cwd w) (parent_of w P) = (None, f1) \<and>
      open_target f1 (cwd w) (os_path_join (repo_path w) P) = Inr q \<and>
      log_status env (''FILE_CREATED: '' @ P) (w\<lparr>fs := f1(q \<mapsto> File C)\<rparr>) = (Inr (), w') \<and>
      r = check_mark @ '' Created: '' @ P)"
  unfolding create_file_def Let_def parent_of_def by (rule create_body_Inr)

lemma full_path_of_parent:
  assumes "parent_of w P \<noteq> []" and "last (os_path_join (repo_path w) P) \<noteq> CHR ''/''"
  shows "os_path_join (repo_path w) P \<noteq> []"
    and "start_dir (cwd w) (os_path_join (repo_path w) P) = start_dir (cwd w) (parent_of w P)"
    and "\<exists>b. components (os_path_join (repo_path w) P) = components (parent_of w P) @ [b] \<and>
             slot w P = walk_step (target (cwd w) (parent_of w P)) b"
proof -
  let ?full = "os_path_join (repo_path w) P"
  from assms(1) show ne: "?full \<noteq> []"
    by (auto simp: parent_of_def)
  from assms(1) show "start_dir (cwd w) ?full = start_dir (cwd w) (parent_of w P)"
    by (simp add: parent_of_def start_dir_dirname)
  from components_dirname [OF ne assms(2)] target_dirname [of ?full "cwd w"] assms
  show "\<exists>b. components ?full = components (parent_of w P) @ [b] \<and>
             slot w P = walk_step (target (cwd w) (parent_of w P)) b"
    by (simp add: parent_of_def slot_def)
qed

lemma create_file_result:
  "create_file env P C w = (Inr r, w') \<Longrightarrow> r = check_mark @ '' Created: '' @ P"
  unfolding create_file_steps by blast

text \<open>What \<open>create_file\<close> does with a creatable path, step by step.\<close>

lemma creatable_steps:
  assumes "creatable w P"
  shows "makedirs (fs w) (cwd w) (parent_of w P) = (None, with_dirs (fs w) (made_dirs w P))"
    and "open_target (with_dirs (fs w) (made_dirs w P)) (cwd w) (os_path_join (repo_path w) P) =
           Inr (slot w P)"
    and "log_ready (w\<lparr>fs := (with_dirs (fs w) (made_dirs w P))(slot w P \<mapsto> File C)\<rparr>)"
    and "list_all (\<lambda>x. with_dirs (fs w) (made_dirs w P) x = Some Dir) (made_dirs w P)"
    and "with_dirs (fs w) (made_dirs w P) (target (cwd w) (parent_of w P)) = Some Dir"
proof -
  let ?full = "os_path_join (repo_path w) P" and ?par = "parent_of w P"
  let ?st = "start_dir (cwd w) (parent_of w P)" and ?ws = "made_dirs w P"
  let ?q = "slot w P" and ?f1 = "with_dirs (fs w) (made_dirs w P)"
  from assms have c: "\<not> has_nul ?full" "?par \<noteq> []" "last ?full \<noteq> CHR ''/''"
      "fs w ?st = Some Dir" "list_all (\<lambda>x. \<not> is_file (fs w x)) ?ws" "?q \<notin> set ?ws"
      "fs w ?q \<noteq> Some Dir" "fs w (cwd w) = Some Dir \<or> cwd w \<in> set ?ws"
      "log_path w = ?q \<or> fs w (log_path w) \<noteq> Some Dir \<and> log_path w \<notin> set ?ws"
    by (simp_all add: creatable_def)
  from c(1) have "list_all (\<lambda>c. \<not> has_nul c) (components ?par)"
    unfolding parent_of_def by (rule has_nul_components)
  with c(5) have "mkdir_p (fs w) ?par 0 False ?st (components ?par) = (None, ?f1)"
    unfolding made_dirs_def by (intro mkdir_p_free)
  with c(2,4) show "makedirs (fs w) (cwd w) ?par = (None, ?f1)"
    by (simp add: makedirs_None)
  from c(5) show dirs: "list_all (\<lambda>x. ?f1 x = Some Dir) ?ws"
    by (simp add: list_all_iff with_dirs_way)
  from c(4) have st: "?f1 ?st = Some Dir"
    by (rule with_dirs_Dir)
  have "target (cwd w) ?par = last (?st # ?ws)"
    by (simp add: target_def made_dirs_def foldl_walk_step_way)
  then have "target (cwd w) ?par = ?st \<or> target (cwd w) ?par \<in> set ?ws"
    by (cases "?ws = []") auto
  with st dirs show "?f1 (target (cwd w) ?par) = Some Dir"
    by (auto simp: list_all_iff)
  from full_path_of_parent [OF c(2,3)] obtain b where
    f: "?full \<noteq> []" "start_dir (cwd w) ?full = ?st"
      "components ?full = components ?par @ [b]" "?q = walk_step (target (cwd w) ?par) b"
    by blast
  from st dirs have "resolve ?f1 ?full ?st (components ?par @ [b]) =
      Inr (walk_step (foldl walk_step ?st (components ?par)) b)"
    unfolding made_dirs_def by (rule resolve_way)
  with f have res: "resolve ?f1 ?full (start_dir (cwd w) ?full) (components ?full) = Inr ?q"
    by (simp add: target_def)
  from c(6,7) have qnd: "?f1 ?q \<noteq> Some Dir"
    by (simp add: with_dirs_other)
  with c(1,3) f(1) res show "open_target ?f1 (cwd w) ?full = Inr ?q"
    by (simp add: open_target_Inr)
  from c(8) c(5) have cw: "?f1 (cwd w) = Some Dir"
    by (auto simp: with_dirs_Dir with_dirs_way list_all_iff)
  with qnd have "?q \<noteq> cwd w"
    by auto
  moreover from c(9) have "log_path w = ?q \<or> ?f1 (log_path w) \<noteq> Some Dir"
    by (auto simp: with_dirs_other)
  ultimately show "log_ready (w\<lparr>fs := ?f1(?q \<mapsto> File C)\<rparr>)"
    using cw by (auto simp: log_ready_def)
qed

lemma create_file_creatable:
  assumes "creatable w P"
  shows "create_file env P C w =
     (Inr (check_mark @ '' Created: '' @ P),
      w\<lparr>fs := ((with_dirs (fs w) (made_dirs w P))(slot w P \<mapsto> File C))
              (log_path w \<mapsto>
                 File ((if slot w P = log_path w then C else log_text w) @
                       log_line env (clock w) (''FILE_CREATED: '' @ P))),
        clock := Suc (clock w)\<rparr>)"
proof -
  let ?f1 = "with_dirs (fs w) (made_dirs w P)"
  let ?w2 = "w\<lparr>fs := ?f1(slot w P \<mapsto> File C)\<rparr>"
  note s = creatable_steps [OF assms]
  have "log_text ?w2 = (if slot w P = log_path w then C else log_text w)"
    by (simp add: log_text_def file_text_def with_dirs_def)
  with log_status_ready [OF s(3), where env = env and s = "''FILE_CREATED: '' @ P" and C1 = C]
  have "log_status env (''FILE_CREATED: '' @ P) ?w2 =
      (Inr (), w\<lparr>fs := (?f1(slot w P \<mapsto> File C))
              (log_path w \<mapsto>
                 File ((if slot w P = log_path w then C else log_text w) @
                       log_line env (clock w) (''FILE_CREATED: '' @ P))),
        clock := Suc (clock w)\<rparr>)"
    by simp
  with s(1,2) show ?thesis
    unfolding create_file_steps by blast
qed

lemma create_file_Inr_creatable:
  assumes "create_file env P C w = (Inr r, w')"
  shows "creatable w P"
proof -
  let ?full = "os_path_join (repo_path w) P" and ?par = "parent_of w P"
  let ?st = "start_dir (cwd w) (parent_of w P)" and ?ws = "made_dirs w P"
  let ?q = "slot w P"
  from assms obtain f1 q where
    mk: "makedirs (fs w) (cwd w) ?par = (None, f1)"
    and op: "open_target f1 (cwd w) ?full = Inr q"
    and lg: "log_status env (''FILE_CREATED: '' @ P) (w\<lparr>fs := f1(q \<mapsto> File C)\<rparr>) = (Inr (), w')"
    unfolding create_file_steps by blast
  from mk have par: "?par \<noteq> []" and st: "fs w ?st = Some Dir"
    and mp: "mkdir_p (fs w) ?par 0 False ?st (components ?par) = (None, f1)"
    by (simp_all add: makedirs_None)
  from op have nul: "\<not> has_nul ?full" and last: "last ?full \<noteq> CHR ''/''"
    and res: "resolve f1 ?full (start_dir (cwd w) ?full) (components ?full) = Inr q"
    and qnd: "f1 q \<noteq> Some Dir"
    by (simp_all add: open_target_Inr)
  from op have q: "q = ?q"
    unfolding slot_def by (rule open_target_is_target)
  from full_path_of_parent [OF par last] obtain b where
    f: "start_dir (cwd w) ?full = ?st" "components ?full = components ?par @ [b]"
    by blast
  with res have "resolve f1 ?full ?st (components ?par @ [b]) = Inr q"
    by simp
  with mkdir_p_None [OF mp] have free: "list_all (\<lambda>x. \<not> is_file (fs w x)) ?ws"
    and f1: "f1 = with_dirs (fs w) ?ws"
    unfolding made_dirs_def by blast+
  from qnd have q1: "fs w ?q \<noteq> Some Dir" and q2: "?q \<in> set ?ws \<longrightarrow> is_file (fs w ?q)"
    unfolding f1 q by (auto dest: with_dirs_not_Dir)
  from q2 free have q3: "?q \<notin> set ?ws"
    by (auto simp: list_all_iff)
  from log_status_Inr [OF lg] have rdy: "log_ready (w\<lparr>fs := f1(q \<mapsto> File C)\<rparr>)"
    by simp
  then have cw: "f1 (cwd w) = Some Dir" and qc: "q \<noteq> cwd w"
    and lp: "log_path w = q \<or> f1 (log_path w) \<noteq> Some Dir"
    by (auto simp: log_ready_def split: if_splits)
  from cw have c8: "fs w (cwd w) = Some Dir \<or> cwd w \<in> set ?ws"
    unfolding f1 by (auto simp: with_dirs_def split: if_splits)
  from lp free have c9: "log_path w = ?q \<or>
      fs w (log_path w) \<noteq> Some Dir \<and> log_path w \<notin> set ?ws"
    unfolding f1 q by (auto simp: list_all_iff dest!: with_dirs_not_Dir)
  from nul par last st free q3 q1 c8 c9 show ?thesis
    by (simp add: creatable_def)
qed

text \<open>A path that has been created can be created again.\<close>

lemma creatable_again:
  assumes "creatable w P" and "create_file env P C w = (Inr r, w')"
  shows "creatable w' P"
    and "slot w' P = slot w P" and "log_path w' = log_path w" and "made_dirs w' P = made_dirs w P"
    and "list_all (\<lambda>x. fs w' x = Some Dir) (made_dirs w P)"
    and "fs w' (target (cwd w) (parent_of w P)) = Some Dir"
proof -
  let ?ws = "made_dirs w P" and ?q = "slot w P" and ?lp = "log_path w"
  let ?f1 = "with_dirs (fs w) (made_dirs w P)"
  from assms have w': "w' = w\<lparr>fs := (?f1(?q \<mapsto> File C))
              (?lp \<mapsto> File ((if ?q = ?lp then C else log_text w) @
                       log_line env (clock w) (''FILE_CREATED: '' @ P))),
        clock := Suc (clock w)\<rparr>"
    by (simp add: create_file_creatable)
  then have same: "repo_path w' = repo_path w" "cwd w' = cwd w"
    by simp_all
  then show eqs: "slot w' P = ?q" "log_path w' = ?lp" "made_dirs w' P = ?ws"
    by (simp_all add: slot_def log_path_def made_dirs_def parent_of_def)
  from same have par: "parent_of w' P = parent_of w P"
    by (simp add: parent_of_def)
  note s = creatable_steps [OF assms(1)]
  from assms(1) have c: "\<not> has_nul (os_path_join (repo_path w) P)" "parent_of w P \<noteq> []"
      "last (os_path_join (repo_path w) P) \<noteq> CHR ''/''"
      "fs w (start_dir (cwd w) (parent_of w P)) = Some Dir" "?q \<notin> set ?ws"
      "?lp = ?q \<or> fs w ?lp \<noteq> Some Dir \<and> ?lp \<notin> set ?ws"
    by (simp_all add: creatable_def)
  from s(3) [of C] have cw: "?f1 (cwd w) = Some Dir" and qc: "?q \<noteq> cwd w"
    by (auto simp: log_ready_def split: if_splits)
  have fs': "fs w' x = (if x = ?q then Some (File C) else ?f1 x)" if "x \<noteq> ?lp" for x
    using that by (simp add: w')
  have lpf: "is_file (fs w' ?lp)"
    by (simp add: w')
  have keep: "fs w' x = Some Dir" if "?f1 x = Some Dir" and "x \<noteq> ?q" and "x \<noteq> ?lp" for x
    using that by (simp add: fs')
  from c(5,6) have lpw: "?lp \<notin> set ?ws"
    by auto
  show dirs: "list_all (\<lambda>x. fs w' x = Some Dir) ?ws"
    using s(4) c(5) lpw by (auto simp: list_all_iff intro!: keep)
  then have free: "list_all (\<lambda>x. \<not> is_file (fs w' x)) ?ws"
    by (auto simp: list_all_iff)
  from s(2) have qnd: "?f1 ?q \<noteq> Some Dir"
    by (simp add: open_target_Inr)
  from s(3) [of C] have lpnd: "?lp \<noteq> ?q \<Longrightarrow> ?f1 ?lp \<noteq> Some Dir"
    by (auto simp: log_ready_def split: if_splits)
  have st: "fs w' (start_dir (cwd w) (parent_of w P)) = Some Dir"
  proof (rule keep)
    show d: "?f1 (start_dir (cwd w) (parent_of w P)) = Some Dir"
      using c(4) by (rule with_dirs_Dir)
    with qnd show nq: "start_dir (cwd w) (parent_of w P) \<noteq> ?q"
      by auto
    show "start_dir (cwd w) (parent_of w P) \<noteq> ?lp"
    proof (cases "?lp = ?q")
      case True
      with nq show ?thesis by simp
    next
      case False
      with lpnd d show ?thesis by auto
    qed
  qed
  have qf: "fs w' ?q \<noteq> Some Dir"
  proof (cases "?q = ?lp")
    case True
    with lpf show ?thesis
      by (auto simp: is_file_def)
  next
    case False
    then show ?thesis
      by (simp add: fs')
  qed
  have cw': "fs w' (cwd w) = Some Dir"
    using cw qc by (intro keep) simp_all
  have lp': "?lp = ?q \<or> fs w' ?lp \<noteq> Some Dir \<and> ?lp \<notin> set ?ws"
    using lpf lpw by (auto simp: is_file_def)
  from c(1,2,3) st free c(5) qf cw' lp' show "creatable w' P"
    by (simp add: creatable_def same par eqs)
  have "target (cwd w) (parent_of w P) = last (start_dir (cwd w) (parent_of w P) # ?ws)"
    by (simp add: target_def made_dirs_def foldl_walk_step_way)
  then have "target (cwd w) (parent_of w P) = start_dir (cwd w) (parent_of w P) \<or>
      target (cwd w) (parent_of w P) \<in> set ?ws"
    by (cases "?ws = []") auto
  with st dirs show "fs w' (target (cwd w) (parent_of w P)) = Some Dir"
    by (auto simp: list_all_iff)
qed

lemma read_created:
  assumes "creatable w P" and "create_file env P C w = (Inr r, w')" and "slot w P \<noteq> log_path w"
  shows "fs w' (slot w P) = Some (File C)"
    and "read_text (fs w') (cwd w') (os_path_join (repo_path w') P) = Inr (universal_newlines C)"
proof -
  note again = creatable_again [OF assms(1,2)]
  from assms have w': "w' = w\<lparr>fs := ((with_dirs (fs w) (made_dirs w P))(slot w P \<mapsto> File C))
              (log_path w \<mapsto> File ((if slot w P = log_path w then C else log_text w) @
                       log_line env (clock w) (''FILE_CREATED: '' @ P))),
        clock := Suc (clock w)\<rparr>"
    by (simp add: create_file_creatable)
  with assms(3) show q: "fs w' (slot w P) = Some (File C)"
    by simp
  let ?full = "os_path_join (repo_path w') P"
  from creatable_steps(2) [OF again(1)]
  have "open_target (with_dirs (fs w') (made_dirs w' P)) (cwd w') ?full = Inr (slot w' P)" .
  then have o: "\<not> has_nul ?full" "?full \<noteq> []" "last ?full \<noteq> CHR ''/''"
    "resolve (with_dirs (fs w') (made_dirs w' P)) ?full (start_dir (cwd w') ?full)
       (components ?full) = Inr (slot w' P)"
    by (simp_all add: open_target_Inr)
  have "with_dirs (fs w') (made_dirs w' P) = fs w'"
  proof (rule ext)
    fix x
    from again(5) show "with_dirs (fs w') (made_dirs w' P) x = fs w' x"
      by (auto simp: with_dirs_def again(4) list_all_iff)
  qed
  with o(4) have "resolve (fs w') ?full (start_dir (cwd w') ?full) (components ?full) = Inr (slot w P)"
    by (simp add: again)
  with o(1,2,3) q show "read_text (fs w') (cwd w') ?full = Inr (universal_newlines C)"
    by (simp add: read_text_def resolve_path_def)
qed

text \<open>The example world: what \<open>create_file\<close> finds for three paths.\<close>

lemma out_paths:
  "parent_of w0 ''./out/x.txt'' = ''/repo/./out''"
  "made_dirs w0 ''./out/x.txt'' = [[''repo''], [''repo''], [''repo'', ''out'']]"
  "slot w0 ''./out/x.txt'' = [''repo'', ''out'', ''x.txt'']"
  "os_path_join (repo_path w0) ''./out/x.txt'' = ''/repo/./out/x.txt''"
  by (simp_all add: parent_of_def made_dirs_def slot_def w0_fields os_path_join_def
      os_path_dirname_def target_def start_dir_def components_def walk_step_def)

lemma nested_paths:
  "parent_of w0 ''out/sub/x.txt'' = ''/repo/out/sub''"
  "made_dirs w0 ''out/sub/x.txt'' = [[''repo''], [''repo'', ''out''], [''repo'', ''out'', ''sub'']]"
  "slot w0 ''out/sub/x.txt'' = [''repo'', ''out'', ''sub'', ''x.txt'']"
  "os_path_join (repo_path w0) ''out/sub/x.txt'' = ''/repo/out/sub/x.txt''"
  by (simp_all add: parent_of_def made_dirs_def slot_def w0_fields os_path_join_def
      os_path_dirname_def target_def start_dir_def components_def walk_step_def)

lemma log_paths:
  "parent_of w0 ''./ai_lifecycle.log'' = ''/repo/.''"
  "made_dirs w0 ''./ai_lifecycle.log'' = [[''repo''], [''repo'']]"
  "slot w0 ''./ai_lifecycle.log'' = [''repo'', ''ai_lifecycle.log'']"
  "os_path_join (repo_path w0) ''./ai_lifecycle.log'' = ''/repo/./ai_lifecycle.log''"
  "log_path w0 = [''repo'', ''ai_lifecycle.log'']"
  by (simp_all add: parent_of_def made_dirs_def slot_def w0_fields os_path_join_def
      os_path_dirname_def target_def start_dir_def components_def walk_step_def log_path_def
      log_name_def)

lemma creatable_w0:
  "creatable w0 ''./out/x.txt''" "creatable w0 ''out/sub/x.txt''"
  "creatable w0 ''./ai_lifecycle.log''"
  by (simp_all add: creatable_def out_paths nested_paths log_paths has_nul_def start_dir_def
      w0_fs fs0_def w0_fields log_name_def os_path_join_def)

lemma no_CR_log_line_env0: "CHR 0x0D \<notin> set s \<Longrightarrow> CHR 0x0D \<notin> set (log_line env0 n s)"
  using set_str_nat [of "10 + n"] by (auto simp: log_line_def env0_def)

text \<open>
  C6 fails for some relative paths and contents. Right after construction the log file
  is a regular file in the working directory, so a file under \<open>ai_lifecycle.log/\<close>
  cannot be created: \<open>os.makedirs\<close> raises \<open>FileExistsError\<close>, the dispatcher
  returns an \<open>Error:\<close> string and nothing is written. For the path
  \<open>./ai_lifecycle.log\<close> the creation succeeds, but the file is the log:
  \<open>log_status\<close> appends the \<open>FILE_CREATED\<close> record to it, and a read yields the
  content followed by that record. A path with a NUL byte in its last name cannot be
  opened, though its parent directory is made. And content with a carriage return is
  read back, in text mode, with a line feed in its place.
\<close>

theorem create_file_fails_under_log:
  "execute_ai_instruction env0 ''CREATE_FILE''
      \<lparr>strings = [''path'' \<mapsto> ''ai_lifecycle.log/x.txt'', ''content'' \<mapsto> ''hi''], files = None\<rparr> w0 =
     (Returned (Some (''Error: '' @ str_exn (EEXIST ''/repo/ai_lifecycle.log''))), w0) \<and>
   read_text (fs (snd (create_file env0 ''./ai_lifecycle.log'' ''hi'' w0))) [''repo'']
       ''/repo/./ai_lifecycle.log'' =
     Inr (''hi'' @ log_line env0 1 ''FILE_CREATED: ./ai_lifecycle.log'') \<and>
   execute_ai_instruction env0 ''CREATE_FILE''
      \<lparr>strings = [''path'' \<mapsto> ''out/a'' @ [CHR 0x00] @ ''b'', ''content'' \<mapsto> ''hi''],
       files = None\<rparr> w0 =
     (Returned (Some ''Error: embedded null byte''),
      w0\<lparr>fs := (fs w0)([''repo'', ''out''] \<mapsto> Dir)\<rparr>) \<and>
   read_text (fs (snd (create_file env0 ''./out/x.txt'' (''a'' @ [CHR 0x0D] @ ''b'') w0)))
       [''repo''] ''/repo/./out/x.txt'' =
     Inr ''a\<newline>b''"
proof -
  have a: "create_file env0 ''ai_lifecycle.log/x.txt'' ''hi'' w0 =
      (Inl (EEXIST ''/repo/ai_lifecycle.log''), w0)"
    by (simp add: create_file_def Let_def w0_fields os_path_join_def os_path_dirname_def
        bindE_def os_makedirs_def makedirs_def start_dir_def components_def walk_step_def
        has_nul_def w0_fs fs0_def log_name_def)
  have b: "fs (snd (create_file env0 ''./ai_lifecycle.log'' ''hi'' w0)) =
      (fs w0)([''repo'', ''ai_lifecycle.log''] \<mapsto>
         File (''hi'' @ log_line env0 1 ''FILE_CREATED: ./ai_lifecycle.log''))"
    by (rule ext)
       (simp add: create_file_creatable [OF creatable_w0(3)] log_paths w0_fields with_dirs_def
          w0_fs fs0_def log_name_def)
  have b': "CHR 0x0D \<notin> set (''hi'' @ log_line env0 1 ''FILE_CREATED: ./ai_lifecycle.log'')"
    using no_CR_log_line_env0 [of "''FILE_CREATED: ./ai_lifecycle.log''" 1] by simp
  have c: "create_file env0 (''out/a'' @ [CHR 0x00] @ ''b'') ''hi'' w0 =
      (Inl EMBEDDED_NUL, w0\<lparr>fs := (fs w0)([''repo'', ''out''] \<mapsto> Dir)\<rparr>)"
    by (simp add: create_file_def Let_def w0_fields os_path_join_def os_path_dirname_def
        bindE_def os_makedirs_def makedirs_def start_dir_def components_def walk_step_def
        has_nul_def open_write_def open_target_def w0_fs fs0_def log_name_def)
  define w1 where "w1 = snd (create_file env0 ''./out/x.txt'' (''a'' @ [CHR 0x0D] @ ''b'') w0)"
  have d: "fs w1 [''repo'', ''out'', ''x.txt''] = Some (File (''a'' @ [CHR 0x0D] @ ''b''))"
      "fs w1 [''repo'', ''out''] = Some Dir" "fs w1 [''repo''] = Some Dir" "fs w1 [] = Some Dir"
    by (simp_all add: w1_def create_file_creatable [OF creatable_w0(1)] out_paths log_paths
          w0_fields with_dirs_def w0_fs fs0_def log_name_def)
  have "read_text (fs (snd (create_file env0 ''./ai_lifecycle.log'' ''hi'' w0))) [''repo'']
       ''/repo/./ai_lifecycle.log'' =
     Inr (universal_newlines (''hi'' @ log_line env0 1 ''FILE_CREATED: ./ai_lifecycle.log''))"
    by (simp add: b read_text_def has_nul_def resolve_path_def start_dir_def components_def
        walk_step_def w0_fs fs0_def log_name_def)
  with universal_newlines_plain [OF b']
  have rb: "read_text (fs (snd (create_file env0 ''./ai_lifecycle.log'' ''hi'' w0)))
       [''repo''] ''/repo/./ai_lifecycle.log'' =
     Inr (''hi'' @ log_line env0 1 ''FILE_CREATED: ./ai_lifecycle.log'')"
    by (simp only:)
  have "read_text (fs w1) [''repo''] ''/repo/./out/x.txt'' = Inr ''a\<newline>b''"
    by (simp add: d read_text_def has_nul_def resolve_path_def start_dir_def components_def
        walk_step_def)
  then have rd: "read_text
       (fs (snd (create_file env0 ''./out/x.txt'' (''a'' @ [CHR 0x0D] @ ''b'') w0)))
       [''repo''] ''/repo/./out/x.txt'' = Inr ''a\<newline>b''"
    unfolding w1_def .
  have ea: "execute_ai_instruction env0 ''CREATE_FILE''
      \<lparr>strings = [''path'' \<mapsto> ''ai_lifecycle.log/x.txt'', ''content'' \<mapsto> ''hi''], files = None\<rparr> w0 =
     (Returned (Some (''Error: '' @ str_exn (EEXIST ''/repo/ai_lifecycle.log''))), w0)"
    by (simp add: execute_ai_instruction_def try_body_def bindE_def a EEXIST_def
        del: str_exn.simps)
  have ec: "execute_ai_instruction env0 ''CREATE_FILE''
      \<lparr>strings = [''path'' \<mapsto> ''out/a'' @ [CHR 0x00] @ ''b'', ''content'' \<mapsto> ''hi''],
       files = None\<rparr> w0 =
     (Returned (Some ''Error: embedded null byte''),
      w0\<lparr>fs := (fs w0)([''repo'', ''out''] \<mapsto> Dir)\<rparr>)"
    using c by (simp add: execute_ai_instruction_def try_body_def bindE_def EMBEDDED_NUL_def)
  from ea rb ec rd show ?thesis
    by (intro conjI)
qed

text \<open>
  C6, amended. \<open>create_file\<close> succeeds exactly for the creatable paths: the joined
  path holds no NUL byte and does not end in a slash, no regular file stands on the way
  of its directory part, the file is to stand where no directory is or is made, and
  the log can be written afterwards. Whenever a creation succeeds, the confirmation is
  \<open>Created: \<close> and the path, every directory on the way and the parent directory
  exist afterwards, and, unless the path is the log file itself, the file holds exactly
  the content and a read of the path in text mode yields the content with universal
  newlines, which is exactly the content when it holds no carriage return. The same
  creation repeated succeeds with the same confirmation, and, unless the path is the log
  file, leaves the same file and the same text to read.
\<close>

theorem create_file_round_trip:
  "((\<exists>r w'. create_file env P C w = (Inr r, w')) \<longleftrightarrow> creatable w P) \<and>
   (create_file env P C w = (Inr r, w') \<longrightarrow>
      r = check_mark @ '' Created: '' @ P \<and>
      list_all (\<lambda>x. fs w' x = Some Dir) (made_dirs w P) \<and>
      fs w' (target (cwd w) (parent_of w P)) = Some Dir \<and>
      (slot w P \<noteq> log_path w \<longrightarrow>
         fs w' (slot w P) = Some (File C) \<and>
         read_text (fs w') (cwd w') (os_path_join (repo_path w') P) =
           Inr (universal_newlines C)) \<and>
      (slot w P \<noteq> log_path w \<and> CHR 0x0D \<notin> set C \<longrightarrow>
         read_text (fs w') (cwd w') (os_path_join (repo_path w') P) = Inr C) \<and>
      (\<exists>w''. create_file env P C w' = (Inr r, w'') \<and>
         (slot w P \<noteq> log_path w \<longrightarrow>
            fs w'' (slot w P) = fs w' (slot w P) \<and>
            read_text (fs w'') (cwd w'') (os_path_join (repo_path w'') P) =
            read_text (fs w') (cwd w') (os_path_join (repo_path w') P))))"
  (is "?iff \<and> (?ok \<longrightarrow> ?A \<and> ?D \<and> ?B \<and> (?free \<longrightarrow> ?R) \<and> (?free \<and> ?plain \<longrightarrow> ?X) \<and> ?I)")
proof (rule conjI [OF _ impI])
  show ?iff
    using create_file_Inr_creatable [of env P C w] create_file_creatable [of w P env C]
    by blast
next
  assume ok: ?ok
  then have can: "creatable w P"
    by (rule create_file_Inr_creatable)
  note again = creatable_again [OF can ok]
  from ok have a: ?A
    by (rule create_file_result)
  have d: ?D by (rule again(5))
  have b: ?B by (rule again(6))
  have r: "?free \<longrightarrow> ?R"
    using read_created [OF can ok] by blast
  then have x: "?free \<and> ?plain \<longrightarrow> ?X"
    by (simp add: universal_newlines_plain)
  from create_file_creatable [OF again(1), of env C] a
  obtain w'' where w'': "create_file env P C w' = (Inr r, w'')"
    by simp
  have "fs w'' (slot w P) = fs w' (slot w P) \<and>
      read_text (fs w'') (cwd w'') (os_path_join (repo_path w'') P) =
      read_text (fs w') (cwd w') (os_path_join (repo_path w') P)" if free: ?free
  proof -
    from free have "slot w' P \<noteq> log_path w'"
      by (simp add: again)
    from read_created [OF again(1) w'' this] read_created [OF can ok free]
    show ?thesis
      by (simp add: again)
  qed
  with w'' have i: ?I
    by blast
  from a d b r x i show "?A \<and> ?D \<and> ?B \<and> (?free \<longrightarrow> ?R) \<and> (?free \<and> ?plain \<longrightarrow> ?X) \<and> ?I"
    by (intro conjI)
qed

theorem create_file_round_trip_witness:
  "creatable w0 ''out/sub/x.txt'' \<and>
   fst (create_file env0 ''out/sub/x.txt'' ''hi'' w0) =
     Inr (check_mark @ '' Created: out/sub/x.txt'') \<and>
   fs w0 [''repo'', ''out''] = None \<and>
   fs (snd (create_file env0 ''out/sub/x.txt'' ''hi'' w0)) [''repo'', ''out''] = Some Dir \<and>
   fs (snd (create_file env0 ''out/sub/x.txt'' ''hi'' w0)) [''repo'', ''out'', ''sub''] = Some Dir \<and>
   read_text (fs (snd (create_file env0 ''out/sub/x.txt'' ''hi'' w0))) [''repo'']
       ''/repo/out/sub/x.txt'' = Inr ''hi'' \<and>
   fst (create_file env0 ''out/sub/x.txt'' ''hi''
          (snd (create_file env0 ''out/sub/x.txt'' ''hi'' w0))) =
     Inr (check_mark @ '' Created: out/sub/x.txt'') \<and>
   \<not> creatable w0 ''ai_lifecycle.log/x.txt'' \<and>
   (\<forall>r w'. create_file env0 ''ai_lifecycle.log/x.txt'' ''hi'' w0 \<noteq> (Inr r, w'))"
proof -
  let ?P = "''out/sub/x.txt''"
  let ?w1 = "snd (create_file env0 ?P ''hi'' w0)"
  note t = create_file_round_trip [where w = w0 and env = env0 and C = "''hi''" and P = ?P
      and r = "check_mark @ '' Created: out/sub/x.txt''" and w' = ?w1]
  from t creatable_w0(2) obtain r1 w1 where "create_file env0 ?P ''hi'' w0 = (Inr r1, w1)"
    by blast
  with create_file_result [of env0 ?P "''hi''" w0 r1 w1]
  have ok: "create_file env0 ?P ''hi'' w0 = (Inr (check_mark @ '' Created: out/sub/x.txt''), ?w1)"
    by simp
  have nolog: "slot w0 ?P \<noteq> log_path w0"
    by (simp add: nested_paths log_paths)
  have pl: "cwd ?w1 = [''repo'']" "repo_path ?w1 = ''/repo''"
    using keepsD [OF keeps_place_create_file, of env0 ?P "''hi''" w0]
    by (simp_all add: place_def w0_fields)
  have cr: "CHR 0x0D \<notin> set ''hi''"
    by simp
  from t ok nolog cr have c: "list_all (\<lambda>x. fs ?w1 x = Some Dir) (made_dirs w0 ?P)"
    "read_text (fs ?w1) (cwd ?w1) (os_path_join (repo_path ?w1) ?P) = Inr ''hi''"
    "\<exists>w''. create_file env0 ?P ''hi'' ?w1 = (Inr (check_mark @ '' Created: out/sub/x.txt''), w'')"
    by blast+
  from c(3) have again: "fst (create_file env0 ?P ''hi'' ?w1) =
      Inr (check_mark @ '' Created: out/sub/x.txt'')"
    by auto
  have none: "fs w0 [''repo'', ''out''] = None"
    by (simp add: w0_fs fs0_def log_name_def)
  have nc: "\<not> creatable w0 ''ai_lifecycle.log/x.txt''"
    by (simp add: creatable_def parent_of_def made_dirs_def slot_def w0_fields os_path_join_def
        os_path_dirname_def target_def start_dir_def components_def walk_step_def
        w0_fs fs0_def log_name_def)
  with create_file_round_trip [where w = w0 and env = env0 and C = "''hi''"
      and P = "''ai_lifecycle.log/x.txt''"]
  have never: "\<forall>r w'. create_file env0 ''ai_lifecycle.log/x.txt'' ''hi'' w0 \<noteq> (Inr r, w')"
    by blast
  from c(1) have dirs: "fs ?w1 [''repo'', ''out''] = Some Dir"
      "fs ?w1 [''repo'', ''out'', ''sub''] = Some Dir"
    by (simp_all add: nested_paths)
  from c(2) have rd: "read_text (fs ?w1) [''repo''] ''/repo/out/sub/x.txt'' = Inr ''hi''"
    by (simp add: pl os_path_join_def)
  from ok have okf: "fst (create_file env0 ?P ''hi'' w0) =
      Inr (check_mark @ '' Created: out/sub/x.txt'')"
    by (metis fst_conv)
  from creatable_w0(2) okf again none dirs rd nc never show ?thesis
    by (intro conjI)
qed

subsection \<open>Results and log records of a dispatch\<close>

lemma stamped_append: "stamped t (a @ b) = stamped t a @ stamped (t + length a) b"
  by (induction a arbitrary: t) simp_all

lemma records_append [simp]: "records env (a @ b) = records env a @ records env b"
  by (simp add: records_def)

lemma records_Nil [simp]: "records env [] = []"
  by (simp add: records_def)

lemma records_Cons [simp]: "records env ((n, s) # rs) = log_line env n s @ records env rs"
  by (simp add: records_def)

lemma appendsI:
  "(\<And>w x w'. repo_path w = rp \<Longrightarrow> cwd w = cw \<Longrightarrow> m w = (Inr x, w') \<Longrightarrow>
      log_text w' = log_text w @ records env (stamped (clock w) sts) \<and>
      clock w' = clock w + length sts) \<Longrightarrow> appends env rp cw m sts"
  by (simp add: appends_def)

lemma appendsD:
  "appends env rp cw m sts \<Longrightarrow> repo_path w = rp \<Longrightarrow> cwd w = cw \<Longrightarrow> m w = (Inr x, w') \<Longrightarrow>
   log_text w' = log_text w @ records env (stamped (clock w) sts) \<and>
   clock w' = clock w + length sts"
  by (simp add: appends_def)

lemma appends_returnE: "appends env rp cw (returnE x) []"
  by (simp add: appends_def)

lemma appends_raiseE: "appends env rp cw (raiseE e) sts"
  by (simp add: appends_def)

lemma appends_bindE:
  assumes k: "keeps place m" and a: "appends env rp cw m a"
    and b: "\<And>x. appends env rp cw (k x) b" and c: "c = a @ b"
  shows "appends env rp cw (bindE m k) c"
proof (rule appendsI)
  fix w y w'
  assume rp: "repo_path w = rp" and cw: "cwd w = cw" and r: "bindE m k w = (Inr y, w')"
  from r obtain x w1 where m: "m w = (Inr x, w1)" and kx: "k x w1 = (Inr y, w')"
    by (auto simp: bindE_eq_Inr)
  from keepsD [OF k, of w] m rp cw have p1: "repo_path w1 = rp" "cwd w1 = cw"
    by (simp_all add: place_def)
  from appendsD [OF a rp cw m] appendsD [OF b p1 kx] c
  show "log_text w' = log_text w @ records env (stamped (clock w) c) \<and>
      clock w' = clock w + length c"
    by (simp add: stamped_append)
qed

lemma appends_log_status: "appends env rp cw (log_status env s) [s]"
  by (rule appendsI) (auto dest!: log_status_Inr)

lemma appends_subprocess_run:
  assumes "spares env (cw @ [log_name])"
  shows "appends env rp cw (subprocess_run env command) []"
proof (rule appendsI)
  fix w x w'
  assume cw: "cwd w = cw" and r: "subprocess_run env command w = (Inr x, w')"
  from r have w': "w' = w\<lparr>fs := snd (shell env command (repo_path w) (fs w))\<rparr>"
    by (auto simp: subprocess_run_def split: prod.splits)
  from assms have "file_text (snd (shell env command (repo_path w) (fs w))) (cw @ [log_name]) =
      file_text (fs w) (cw @ [log_name])"
    unfolding spares_def by blast
  with cw w' show "log_text w' = log_text w @ records env (stamped (clock w) []) \<and>
      clock w' = clock w + length []"
    by (simp add: log_text_def log_path_def)
qed

lemma appends_run_command:
  assumes "spares env (cw @ [log_name])"
  shows "appends env rp cw (run_command env command) [''COMMAND_RUN: '' @ command]"
  unfolding run_command_def Let_def
  by (rule appends_bindE [OF _ appends_subprocess_run [OF assms]
        appends_bindE [OF _ appends_log_status appends_returnE refl]])
     simp_all

lemma appends_create_file:
  assumes "target cw (os_path_join rp P) \<noteq> cw @ [log_name]"
  shows "appends env rp cw (create_file env P C) [''FILE_CREATED: '' @ P]"
proof (rule appendsI)
  fix w x w'
  assume rp: "repo_path w = rp" and cw: "cwd w = cw" and r: "create_file env P C w = (Inr x, w')"
  from r have "creatable w P"
    by (rule create_file_Inr_creatable)
  from create_file_creatable [OF this, of env C] r
  have w': "w' = w\<lparr>fs := ((with_dirs (fs w) (made_dirs w P))(slot w P \<mapsto> File C))
              (log_path w \<mapsto>
                 File ((if slot w P = log_path w then C else log_text w) @
                       log_line env (clock w) (''FILE_CREATED: '' @ P))),
        clock := Suc (clock w)\<rparr>"
    by simp
  from assms rp cw have "slot w P \<noteq> log_path w"
    by (simp add: slot_def log_path_def)
  with w' show "log_text w' = log_text w @
        records env (stamped (clock w) [''FILE_CREATED: '' @ P]) \<and>
      clock w' = clock w + length [''FILE_CREATED: '' @ P]"
    by (simp add: log_text_def file_text_def)
qed

lemma appends_eq: "appends env rp cw m a \<Longrightarrow> a = b \<Longrightarrow> appends env rp cw m b"
  by simp

lemma appends_if:
  "(c \<Longrightarrow> appends env rp cw m1 sts) \<Longrightarrow> (\<not> c \<Longrightarrow> appends env rp cw m2 sts) \<Longrightarrow>
   appends env rp cw (if c then m1 else m2) sts"
  by simp

lemma appends_set_deployment_url: "appends env rp cw (set_deployment_url url) []"
  by (rule appendsI) (auto simp: set_deployment_url_def log_text_def log_path_def)

lemma appends_start_monitoring: "appends env rp cw (start_monitoring env url) []"
  by (rule appendsI) (auto simp: start_monitoring_def log_text_def log_path_def)

lemma appends_check_application_health: "appends env rp cw (check_application_health env) []"
  by (rule appendsI)
     (auto simp: check_application_health_def split: option.splits http_outcome.splits if_splits)

lemma appends_then_return:
  "keeps place m \<Longrightarrow> appends env rp cw m sts \<Longrightarrow>
   appends env rp cw (bindE m (\<lambda>x. returnE (g x))) sts"
  by (rule appends_bindE [where a = sts and b = "[]"]) (simp_all add: appends_returnE)

lemma appends_deploy_tail:
  assumes "spares env (cw @ [log_name])"
  shows "appends env rp cw
           (bindE (run_command env recipe) (\<lambda>result.
            bindE (set_deployment_url e) (\<lambda>url. returnE (g url))))
           [''COMMAND_RUN: '' @ recipe]"
  by (rule appends_bindE [OF keeps_place_run_command appends_run_command [OF assms]
        appends_then_return [OF keeps_place_set_deployment_url appends_set_deployment_url]])
     simp

lemma appends_deploy_project:
  assumes sp: "spares env (cw @ [log_name])"
  shows "appends env rp cw (deploy_project env t) (deploy_statuses t)"
  unfolding deploy_project_def
  apply (rule appends_bindE [OF keeps_place_log_status appends_log_status,
        where b = "tl (deploy_statuses t)"])
   apply (intro appends_if)
      apply (rule appends_eq [OF appends_deploy_tail [OF sp]], simp add: deploy_statuses_def)
     apply (rule appends_eq [OF appends_deploy_tail [OF sp]], simp add: deploy_statuses_def)
    apply (rule appends_eq [OF appends_deploy_tail [OF sp]], simp add: deploy_statuses_def)
   apply (rule appends_eq [OF appends_returnE], simp add: deploy_statuses_def)
  apply (simp add: deploy_statuses_def)
  done

lemma appends_create_files:
  assumes "list_all (\<lambda>f. target cw (os_path_join rp f) \<noteq> cw @ [log_name]) (map fst fl)"
  shows "appends env rp cw (create_files env fl)
           (map (\<lambda>(file_path, content). ''FILE_CREATED: '' @ file_path) fl)"
  using assms
proof (induction fl)
  case Nil
  show ?case
    by (simp add: appends_returnE del: returnE_apply)
next
  case (Cons a fl)
  obtain f c where a: "a = (f, c)"
    by (cases a)
  with Cons.prems have t: "target cw (os_path_join rp f) \<noteq> cw @ [log_name]"
    and rest: "list_all (\<lambda>f. target cw (os_path_join rp f) \<noteq> cw @ [log_name]) (map fst fl)"
    by simp_all
  have "appends env rp cw (bindE (create_file env f c) (\<lambda>_. create_files env fl))
          ([''FILE_CREATED: '' @ f] @ map (\<lambda>(file_path, content). ''FILE_CREATED: '' @ file_path) fl)"
    by (rule appends_bindE [OF keeps_place_create_file appends_create_file [OF t]
          Cons.IH [OF rest] refl])
  then show ?case
    by (simp add: a)
qed

lemma appends_auto_fix_issues:
  assumes sp: "spares env (cw @ [log_name])"
    and db: "t = ''database_connection'' \<Longrightarrow>
             target cw (os_path_join rp ''config/fix_database.py'') \<noteq> cw @ [log_name]"
  shows "appends env rp cw (auto_fix_issues env t) (auto_fix_statuses t)"
  unfolding auto_fix_issues_def
  apply (rule appends_bindE [OF keeps_place_log_status appends_log_status,
        where b = "tl (auto_fix_statuses t)"])
   apply (intro appends_if)
      apply (rule appends_eq [OF appends_then_return [OF keeps_place_run_command
              appends_run_command [OF sp]]], simp add: auto_fix_statuses_def)
     apply (rule appends_eq [OF appends_deploy_project [OF sp]], simp add: auto_fix_statuses_def)
    apply (rule appends_eq [OF appends_then_return [OF keeps_place_create_file
            appends_create_file [OF db]]], assumption, simp add: auto_fix_statuses_def)
   apply (rule appends_eq [OF appends_returnE], simp add: auto_fix_statuses_def)
  apply (simp add: auto_fix_statuses_def)
  done

lemma appends_add_feature:
  assumes sp: "spares env (cw @ [log_name])"
    and fl: "list_all (\<lambda>f. target cw (os_path_join rp f) \<noteq> cw @ [log_name]) (map fst fl)"
  shows "appends env rp cw (add_feature env name fl)
           ((''ADDING_FEATURE: '' @ name) #
            map (\<lambda>(file_path, content). ''FILE_CREATED: '' @ file_path) fl @
            deploy_statuses ''github_pages'')"
  unfolding add_feature_def
  by (rule appends_bindE [OF keeps_place_log_status appends_log_status
        appends_bindE [OF keeps_place_create_files appends_create_files [OF fl]
          appends_then_return [OF keeps_place_deploy_project appends_deploy_project [OF sp]]
          refl]])
     simp

lemma appends_run_tests:
  assumes sp: "spares env (cw @ [log_name])"
  shows "appends env rp cw (run_tests env)
           [''COMMAND_RUN: python -m pytest || npm test || echo '' @
              [CHR 0x27] @ ''No tests found'' @ [CHR 0x27]]"
  unfolding run_tests_def
  by (rule appends_eq [OF appends_then_return [OF keeps_place_run_command
        appends_run_command [OF sp]]]) simp

lemma appends_backup_tail:
  assumes sp: "spares env (cw @ [log_name])"
  shows "appends env rp cw
           (bindE (run_command env (''git tag backup-'' @ ts)) (\<lambda>_.
            bindE (run_command env ''git push --tags'') (\<lambda>_. returnE (g ts))))
           [''COMMAND_RUN: git tag backup-'' @ ts, ''COMMAND_RUN: git push --tags'']"
  by (rule appends_bindE [OF keeps_place_run_command appends_run_command [OF sp]
        appends_then_return [OF keeps_place_run_command appends_run_command [OF sp]]])
     simp

lemma appends_git_commit:
  assumes sp: "spares env (cw @ [log_name])"
  shows "appends env rp cw (git_commit env message)
           [''COMMAND_RUN: git add .'',
            ''COMMAND_RUN: git commit -m '' @ [CHR 0x22] @ message @ [CHR 0x22],
            ''COMMAND_RUN: git push origin main'']"
  unfolding git_commit_def
  by (rule appends_bindE [OF keeps_place_run_command appends_run_command [OF sp]
        appends_bindE [OF keeps_place_run_command appends_run_command [OF sp]
          appends_then_return [OF keeps_place_run_command appends_run_command [OF sp]] refl]])
     simp

lemma field_Some [simp]: "strings p k = Some v \<Longrightarrow> field p k = v"
  by (simp add: field_def)

lemma appends_item:
  "(\<And>v. strings p k = Some v \<Longrightarrow> appends env rp cw (kk v) sts) \<Longrightarrow>
   appends env rp cw (bindE (item p k) kk) sts"
  by (cases "strings p k") (simp_all add: appends_raiseE)

lemma appends_item_files:
  "(\<And>v. files p = Some v \<Longrightarrow> appends env rp cw (kk v) sts) \<Longrightarrow>
   appends env rp cw (bindE (item_files p) kk) sts"
  by (cases "files p") (simp_all add: appends_raiseE)

lemma appends_try_body:
  assumes sp: "spares env (cw @ [log_name])"
    and wr: "list_all (\<lambda>f. target cw (os_path_join rp f) \<noteq> cw @ [log_name]) (written a p)"
    and nb: "a \<noteq> ''BACKUP_PROJECT''"
  shows "appends env rp cw (try_body env a p) (statuses a p)"
  unfolding try_body_def
  apply (intro appends_if)
  subgoal
    apply (rule appends_item)+
    apply (rule appends_eq [OF appends_then_return [OF keeps_place_create_file appends_create_file]])
    using wr apply (simp add: written_def)
    apply (simp add: statuses_def)
    done
  subgoal
    apply (rule appends_item)
    apply (rule appends_eq [OF appends_then_return [OF keeps_place_run_command
            appends_run_command [OF sp]]])
    apply (simp add: statuses_def)
    done
  subgoal
    apply (rule appends_item)
    apply (rule appends_eq [OF appends_then_return [OF keeps_place_deploy_project
            appends_deploy_project [OF sp]]])
    apply (simp add: statuses_def)
    done
  subgoal
    apply (rule appends_item)
    apply (rule appends_eq [OF appends_then_return [OF keeps_place_start_monitoring
            appends_start_monitoring]])
    apply (simp add: statuses_def)
    done
  subgoal
    apply (rule appends_eq [OF appends_then_return [OF keeps_place_check_application_health
            appends_check_application_health]])
    apply (simp add: statuses_def)
    done
  subgoal
    apply (rule appends_item)
    apply (rule appends_eq [OF appends_then_return [OF keeps_place_auto_fix_issues
            appends_auto_fix_issues [OF sp]]])
    using wr apply (simp add: written_def)
    apply (simp add: statuses_def)
    done
  subgoal
    apply (rule appends_item)
    apply (rule appends_item_files)
    apply (rule appends_eq [OF appends_then_return [OF keeps_place_add_feature
            appends_add_feature [OF sp]]])
    using wr apply (simp add: written_def)
    apply (simp add: statuses_def)
    done
  subgoal
    apply (rule appends_item)
    apply (rule appends_eq [OF appends_then_return [OF keeps_place_git_commit
            appends_git_commit [OF sp]]])
    apply (simp add: statuses_def)
    done
  subgoal
    apply (rule appends_eq [OF appends_then_return [OF keeps_place_run_tests
            appends_run_tests [OF sp]]])
    apply (simp add: statuses_def)
    done
  subgoal
    using nb apply simp
    done
  subgoal
    apply (rule appends_eq [OF appends_returnE])
    apply (simp add: statuses_def)
    done
  done

text \<open>
  \<open>BACKUP_PROJECT\<close> reads the clock for its time stamp before the two commands are
  logged.
\<close>

lemma backup_project_log:
  assumes sp: "spares env (cwd w @ [log_name])"
    and r: "try_body env ''BACKUP_PROJECT'' p w = (Inr x, w')"
  shows "log_text w' = log_text w @
           records env (stamped (Suc (clock w))
             [''COMMAND_RUN: git tag backup-'' @ stamp env (clock w),
              ''COMMAND_RUN: git push --tags''])"
proof -
  let ?ts = "stamp env (clock w)"
  let ?w1 = "w\<lparr>clock := Suc (clock w)\<rparr>"
  let ?tail = "bindE (run_command env (''git tag backup-'' @ ?ts)) (\<lambda>_.
            bindE (run_command env ''git push --tags'') (\<lambda>_.
            returnE (floppy_disk @ '' Backup created: backup-'' @ ?ts)))"
  have "try_body env ''BACKUP_PROJECT'' p = bindE (backup_project env) (\<lambda>r. returnE (Some r))"
    by (simp add: try_body_def)
  with r obtain y where b: "backup_project env w = (Inr y, w')"
    by (auto simp: bindE_eq_Inr)
  have "backup_project env w = ?tail ?w1"
    by (simp add: backup_project_def bindE_def strftime_now_def)
  with b have t: "?tail ?w1 = (Inr y, w')"
    by simp
  have "appends env (repo_path w) (cwd w) ?tail
      [''COMMAND_RUN: git tag backup-'' @ ?ts, ''COMMAND_RUN: git push --tags'']"
    by (rule appends_backup_tail [OF sp])
  from appendsD [OF this _ _ t] show ?thesis
    by simp
qed

lemma returnsD: "returns P m \<Longrightarrow> m w = (Inr x, w') \<Longrightarrow> P x"
  by (auto simp: returns_def)

lemma returns_returnE: "P x \<Longrightarrow> returns P (returnE x)"
  by (simp add: returns_def)

lemma returns_raiseE [simp]: "returns P (raiseE e)"
  by (simp add: returns_def)

lemma returns_bindE: "(\<And>x. returns P (k x)) \<Longrightarrow> returns P (bindE m k)"
  by (auto simp: returns_def bindE_eq_Inr)

lemma returns_if: "returns P m1 \<Longrightarrow> returns P m2 \<Longrightarrow> returns P (if c then m1 else m2)"
  by simp

lemma returns_Some:
  "returns (\<lambda>r. r \<noteq> []) m \<Longrightarrow>
   returns (\<lambda>x. \<exists>r. x = Some r \<and> r \<noteq> []) (bindE m (\<lambda>r. returnE (Some r)))"
  by (auto simp: returns_def bindE_eq_Inr)

lemma marks_nonempty [simp]:
  "check_mark @ x \<noteq> []" "cross_mark @ x \<noteq> []" "magnifier @ x \<noteq> []"
  "test_tube @ x \<noteq> []" "floppy_disk @ x \<noteq> []"
  by (simp_all add: check_mark_def cross_mark_def magnifier_def test_tube_def floppy_disk_def)

lemma nonempty_create_file: "returns (\<lambda>r. r \<noteq> []) (create_file env P C)"
  by (auto simp: returns_def dest!: create_file_result)

lemma nonempty_run_command: "returns (\<lambda>r. r \<noteq> []) (run_command env command)"
  unfolding run_command_def Let_def
  by (intro returns_bindE returns_returnE) simp

lemma nonempty_deploy_project: "returns (\<lambda>r. r \<noteq> []) (deploy_project env t)"
  unfolding deploy_project_def
  by (intro returns_bindE returns_if returns_returnE) simp_all

lemma nonempty_start_monitoring: "returns (\<lambda>r. r \<noteq> []) (start_monitoring env url)"
  by (simp add: returns_def start_monitoring_def)

lemma nonempty_check_application_health: "returns (\<lambda>r. r \<noteq> []) (check_application_health env)"
  by (auto simp: returns_def check_application_health_def
      split: option.splits http_outcome.splits if_splits)

lemma nonempty_auto_fix_issues: "returns (\<lambda>r. r \<noteq> []) (auto_fix_issues env t)"
  unfolding auto_fix_issues_def
  by (intro returns_bindE returns_if returns_returnE nonempty_deploy_project) simp_all

lemma nonempty_add_feature: "returns (\<lambda>r. r \<noteq> []) (add_feature env name fl)"
  unfolding add_feature_def
  by (intro returns_bindE returns_returnE) simp

lemma nonempty_run_tests: "returns (\<lambda>r. r \<noteq> []) (run_tests env)"
  unfolding run_tests_def
  by (intro returns_bindE returns_returnE) simp

lemma nonempty_backup_project: "returns (\<lambda>r. r \<noteq> []) (backup_project env)"
  unfolding backup_project_def
  by (intro returns_bindE returns_returnE) simp

lemma nonempty_git_commit: "returns (\<lambda>r. r \<noteq> []) (git_commit env message)"
  unfolding git_commit_def
  by (intro returns_bindE returns_returnE) simp

lemmas nonempty_handlers =
  nonempty_create_file nonempty_run_command nonempty_deploy_project nonempty_start_monitoring
  nonempty_check_application_health nonempty_auto_fix_issues nonempty_add_feature
  nonempty_run_tests nonempty_backup_project nonempty_git_commit

lemma try_body_Some:
  assumes "a \<in> set dispatched_actions"
  shows "returns (\<lambda>x. \<exists>r. x = Some r \<and> r \<noteq> []) (try_body env a p)"
    (is "returns ?Q _")
proof -
  have zero: "returns ?Q (bindE h (\<lambda>r. returnE (Some r)))"
    if "returns (\<lambda>r. r \<noteq> []) h" for h
    using that by (rule returns_Some)
  have one: "returns ?Q (bindE (item p k) (\<lambda>v. bindE (h v) (\<lambda>r. returnE (Some r))))"
    if "\<And>v. returns (\<lambda>r. r \<noteq> []) (h v)" for k h
    by (rule returns_bindE, rule returns_Some, rule that)
  have two: "returns ?Q (bindE (item p k) (\<lambda>v. bindE (item p k2) (\<lambda>v2.
      bindE (h v v2) (\<lambda>r. returnE (Some r)))))"
    if "\<And>v v2. returns (\<lambda>r. r \<noteq> []) (h v v2)" for k k2 h
    by (rule returns_bindE, rule returns_bindE, rule returns_Some, rule that)
  have two': "returns ?Q (bindE (item p k) (\<lambda>v. bindE (item_files p) (\<lambda>v2.
      bindE (h v v2) (\<lambda>r. returnE (Some r)))))"
    if "\<And>v v2. returns (\<lambda>r. r \<noteq> []) (h v v2)" for k h
    by (rule returns_bindE, rule returns_bindE, rule returns_Some, rule that)
  from assms have "a = ''CREATE_FILE'' \<or> a = ''RUN_COMMAND'' \<or> a = ''DEPLOY_PROJECT'' \<or>
      a = ''START_MONITORING'' \<or> a = ''CHECK_HEALTH'' \<or> a = ''AUTO_FIX_ISSUES'' \<or>
      a = ''ADD_FEATURE'' \<or> a = ''GIT_COMMIT'' \<or> a = ''RUN_TESTS'' \<or> a = ''BACKUP_PROJECT''"
    by (simp only: dispatched_actions_def list.set insert_iff empty_iff simp_thms)
  then show ?thesis
  proof (elim disjE)
    assume c1: "a = ''CREATE_FILE''"
    have "returns ?Q (try_body env ''CREATE_FILE'' p)"
      unfolding try_body_def if_P [OF refl] by (rule two) (rule nonempty_create_file)
    with c1 show ?thesis by simp
  next
    assume c2: "a = ''RUN_COMMAND''"
    have "try_body env ''RUN_COMMAND'' p = bindE (item p ''command'') (\<lambda>command.
        bindE (run_command env command) (\<lambda>r. returnE (Some r)))"
      by (simp add: try_body_def)
    with c2 show ?thesis by (simp only:) (rule one, rule nonempty_run_command)
  next
    assume c3: "a = ''DEPLOY_PROJECT''"
    have "try_body env ''DEPLOY_PROJECT'' p = bindE (item p ''deploy_type'') (\<lambda>deploy_type.
        bindE (deploy_project env deploy_type) (\<lambda>r. returnE (Some r)))"
      by (simp add: try_body_def)
    with c3 show ?thesis by (simp only:) (rule one, rule nonempty_deploy_project)
  next
    assume c4: "a = ''START_MONITORING''"
    have "try_body env ''START_MONITORING'' p = bindE (item p ''url'') (\<lambda>url.
        bindE (start_monitoring env url) (\<lambda>r. returnE (Some r)))"
      by (simp add: try_body_def)
    with c4 show ?thesis by (simp only:) (rule one, rule nonempty_start_monitoring)
  next
    assume c5: "a = ''CHECK_HEALTH''"
    have "try_body env ''CHECK_HEALTH'' p =
        bindE (check_application_health env) (\<lambda>r. returnE (Some r))"
      by (simp add: try_body_def)
    with c5 show ?thesis by (simp only:) (rule zero, rule nonempty_check_application_health)
  next
    assume c6: "a = ''AUTO_FIX_ISSUES''"
    have "try_body env ''AUTO_FIX_ISSUES'' p = bindE (item p ''issue_type'') (\<lambda>issue_type.
        bindE (auto_fix_issues env issue_type) (\<lambda>r. returnE (Some r)))"
      by (simp add: try_body_def)
    with c6 show ?thesis by (simp only:) (rule one, rule nonempty_auto_fix_issues)
  next
    assume c7: "a = ''ADD_FEATURE''"
    have "try_body env ''ADD_FEATURE'' p = bindE (item p ''feature_name'') (\<lambda>feature_name.
        bindE (item_files p) (\<lambda>fl.
        bindE (add_feature env feature_name fl) (\<lambda>r. returnE (Some r))))"
      by (simp add: try_body_def)
    with c7 show ?thesis by (simp only:) (rule two', rule nonempty_add_feature)
  next
    assume c8: "a = ''GIT_COMMIT''"
    have "try_body env ''GIT_COMMIT'' p = bindE (item p ''message'') (\<lambda>message.
        bindE (git_commit env message) (\<lambda>r. returnE (Some r)))"
      by (simp add: try_body_def)
    with c8 show ?thesis by (simp only:) (rule one, rule nonempty_git_commit)
  next
    assume c9: "a = ''RUN_TESTS''"
    have "try_body env ''RUN_TESTS'' p = bindE (run_tests env) (\<lambda>r. returnE (Some r))"
      by (simp add: try_body_def)
    with c9 show ?thesis by (simp only:) (rule zero, rule nonempty_run_tests)
  next
    assume c10: "a = ''BACKUP_PROJECT''"
    have "try_body env ''BACKUP_PROJECT'' p = bindE (backup_project env) (\<lambda>r. returnE (Some r))"
      by (simp add: try_body_def)
    with c10 show ?thesis by (simp only:) (rule zero, rule nonempty_backup_project)
  qed
qed


text \<open>A method fails to return only when a shell command does.\<close>

lemma hangsI:
  "(\<And>w w'. m w = (Inl Hang, w') \<Longrightarrow> \<exists>command d f. fst (shell env command d f) = Inl Hang) \<Longrightarrow>
   hangs_in_shell env m"
  by (simp add: hangs_in_shell_def)

lemma hangsD:
  "hangs_in_shell env m \<Longrightarrow> m w = (Inl Hang, w') \<Longrightarrow>
   \<exists>command d f. fst (shell env command d f) = Inl Hang"
  unfolding hangs_in_shell_def by blast

lemma hangs_returnE: "hangs_in_shell env (returnE x)"
  by (simp add: hangs_in_shell_def)

lemma hangs_bindE:
  assumes "hangs_in_shell env m" and "\<And>x. hangs_in_shell env (k x)"
  shows "hangs_in_shell env (bindE m k)"
proof (rule hangsI)
  fix w w'
  assume h: "bindE m k w = (Inl Hang, w')"
  obtain r w1 where m: "m w = (r, w1)"
    by (cases "m w")
  show "\<exists>command d f. fst (shell env command d f) = Inl Hang"
  proof (cases r)
    case (Inl e)
    with m h have "m w = (Inl Hang, w')"
      by (simp add: bindE_def)
    with assms(1) show ?thesis
      by (rule hangsD)
  next
    case (Inr x)
    with m h have "k x w1 = (Inl Hang, w')"
      by (simp add: bindE_def)
    with assms(2) show ?thesis
      by (rule hangsD)
  qed
qed

lemma hangs_if:
  "hangs_in_shell env m1 \<Longrightarrow> hangs_in_shell env m2 \<Longrightarrow> hangs_in_shell env (if c then m1 else m2)"
  by simp

lemma hangs_log_status: "hangs_in_shell env (log_status env s)"
  by (rule hangsI) (auto dest: log_status_Inl)

lemma hangs_os_makedirs: "hangs_in_shell env (os_makedirs name)"
  by (rule hangsI) (simp add: os_makedirs_not_Hang)

lemma hangs_open_write: "hangs_in_shell env (open_write name content)"
  by (rule hangsI) (auto simp: open_write_def open_target_not_Hang split: sum.splits)

lemma hangs_subprocess_run: "hangs_in_shell env (subprocess_run env command)"
proof (rule hangsI)
  fix w w'
  assume "subprocess_run env command w = (Inl Hang, w')"
  then have "fst (shell env command (repo_path w) (fs w)) = Inl Hang"
    by (auto simp: subprocess_run_def split: prod.splits)
  then show "\<exists>command d f. fst (shell env command d f) = Inl Hang"
    by blast
qed

lemma hangs_set_deployment_url: "hangs_in_shell env (set_deployment_url url)"
  by (simp add: hangs_in_shell_def set_deployment_url_def)

lemma hangs_strftime_now: "hangs_in_shell env (strftime_now env)"
  by (simp add: hangs_in_shell_def strftime_now_def)

lemma hangs_start_monitoring: "hangs_in_shell env (start_monitoring env url)"
  by (simp add: hangs_in_shell_def start_monitoring_def)

lemma hangs_check_application_health: "hangs_in_shell env (check_application_health env)"
  by (rule hangsI)
     (auto simp: check_application_health_def split: option.splits http_outcome.splits if_splits)

lemma hangs_item: "hangs_in_shell env (item p k)"
  by (simp add: hangs_in_shell_def item_def split: option.splits)

lemma hangs_item_files: "hangs_in_shell env (item_files p)"
  by (simp add: hangs_in_shell_def item_files_def split: option.splits)

lemmas hangs_steps =
  hangs_returnE hangs_log_status hangs_os_makedirs hangs_open_write hangs_subprocess_run
  hangs_set_deployment_url hangs_strftime_now hangs_start_monitoring
  hangs_check_application_health hangs_item hangs_item_files

lemma hangs_create_file: "hangs_in_shell env (create_file env filepath content)"
proof -
  have "hangs_in_shell env (bindE (os_makedirs d) (\<lambda>_. bindE (open_write q content) (\<lambda>_.
          bindE (log_status env s) (\<lambda>_. returnE r))))" for d q s r
    by (intro hangs_bindE hangs_steps)
  then have aux: "bindE (os_makedirs d) (\<lambda>_. bindE (open_write q content) (\<lambda>_.
          bindE (log_status env s) (\<lambda>_. returnE r))) w = (Inl Hang, w') \<Longrightarrow>
      \<exists>command d f. fst (shell env command d f) = Inl Hang" for d q s r w w'
    by (rule hangsD)
  show ?thesis
    unfolding hangs_in_shell_def create_file_def Let_def by (intro allI impI) (erule aux)
qed

lemma hangs_run_command: "hangs_in_shell env (run_command env command)"
  unfolding run_command_def Let_def by (intro hangs_bindE hangs_steps)

lemma hangs_deploy_project: "hangs_in_shell env (deploy_project env deploy_type)"
  unfolding deploy_project_def by (intro hangs_bindE hangs_if hangs_steps hangs_run_command)

lemma hangs_create_files: "hangs_in_shell env (create_files env fl)"
proof (induction fl)
  case Nil
  show ?case
    by (simp add: hangs_returnE del: returnE_apply)
next
  case (Cons a fl)
  then show ?case
    by (cases a) (simp, intro hangs_bindE hangs_create_file)
qed

lemma hangs_auto_fix_issues: "hangs_in_shell env (auto_fix_issues env issue_type)"
  unfolding auto_fix_issues_def
  by (intro hangs_bindE hangs_if hangs_steps hangs_run_command hangs_deploy_project
      hangs_create_file)

lemma hangs_add_feature: "hangs_in_shell env (add_feature env feature_name fl)"
  unfolding add_feature_def
  by (intro hangs_bindE hangs_steps hangs_create_files hangs_deploy_project)

lemma hangs_run_tests: "hangs_in_shell env (run_tests env)"
  unfolding run_tests_def by (intro hangs_bindE hangs_steps hangs_run_command)

lemma hangs_backup_project: "hangs_in_shell env (backup_project env)"
  unfolding backup_project_def by (intro hangs_bindE hangs_steps hangs_run_command)

lemma hangs_git_commit: "hangs_in_shell env (git_commit env message)"
  unfolding git_commit_def by (intro hangs_bindE hangs_steps hangs_run_command)

lemma hangs_try_body: "hangs_in_shell env (try_body env a p)"
  unfolding try_body_def
  by (intro hangs_bindE hangs_if hangs_steps hangs_create_file hangs_run_command
      hangs_deploy_project hangs_auto_fix_issues hangs_add_feature hangs_run_tests
      hangs_backup_project hangs_git_commit)

lemma execute_Hung:
  assumes "fst (execute_ai_instruction env a p w) = Hung"
  shows "\<exists>command d f. fst (shell env command d f) = Inl Hang"
proof -
  obtain y w1 where t: "try_body env a p w = (y, w1)"
    by (cases "try_body env a p w")
  with assms have "y = Inl Hang"
    by (cases y) (auto simp: execute_ai_instruction_def split: if_splits)
  with t hangsD [OF hangs_try_body, of env a p w w1] show ?thesis
    by simp
qed

lemma execute_Some:
  assumes a: "a \<in> set dispatched_actions"
  shows "fst (execute_ai_instruction env a p w) = Hung \<or>
         (\<exists>r. fst (execute_ai_instruction env a p w) = Returned (Some r) \<and> r \<noteq> [])"
proof -
  obtain y w1 where t: "try_body env a p w = (y, w1)"
    by (cases "try_body env a p w")
  show ?thesis
  proof (cases y)
    case (Inl e)
    with t show ?thesis
      by (simp add: execute_ai_instruction_def del: str_exn.simps)
  next
    case (Inr v)
    with t returnsD [OF try_body_Some [OF a], of env p w v w1] show ?thesis
      by (auto simp: execute_ai_instruction_def)
  qed
qed

text \<open>
  A shell that puts the log back after every command spares it, and writes the same
  records.
\<close>

lemma spares_sparing: "spares (sparing q env) q"
  by (simp add: spares_def sparing_def file_text_def split: prod.splits)

lemma sparing_clock [simp]:
  "now (sparing q env) = now env" "stamp (sparing q env) = stamp env"
  by (simp_all add: sparing_def)

lemma records_sparing [simp]: "records (sparing q env) rs = records env rs"
  by (simp add: records_def log_line_def)

lemma logged_sparing [simp]: "logged (sparing q env) t a p = logged env t a p"
  by (simp add: logged_def)

lemma spares_quiet: "shell env = quiet_shell rc \<Longrightarrow> spares env q"
  by (simp add: spares_def quiet_shell_def)

text \<open>
  The example: \<open>ADD_FEATURE\<close> runs one command, the deployment. In an environment
  whose shell does with that command what the quiet shell does, the dispatch goes as
  with the quiet shell, whatever the shell does with other commands.
\<close>

lemma log_status_now: "now env = now env2 \<Longrightarrow> log_status env = log_status env2"
  by (rule ext)+ (simp add: log_status_def log_line_def split: sum.splits)

lemma create_files_now: "now env = now env2 \<Longrightarrow> create_files env fl = create_files env2 fl"
  by (induction fl) (auto simp: create_file_def log_status_now [of env env2])

lemma add_feature_same:
  assumes "shell env ''gh pages deploy --branch main'' = shell env2 ''gh pages deploy --branch main''"
    and "now env = now env2"
  shows "try_body env ''ADD_FEATURE'' p = try_body env2 ''ADD_FEATURE'' p"
proof -
  have "run_command env ''gh pages deploy --branch main'' =
      run_command env2 ''gh pages deploy --branch main''"
    using assms by (simp add: run_command_def subprocess_run_def log_status_now [of env env2])
  then have "deploy_project env ''github_pages'' = deploy_project env2 ''github_pages''"
    using assms(2) by (simp add: deploy_project_def log_status_now [of env env2])
  then show ?thesis
    using assms(2)
    by (simp add: try_body_def add_feature_def log_status_now [of env env2]
        create_files_now [of env env2])
qed

lemma create_file_log_ready: "create_file env P C w = (Inr r, w') \<Longrightarrow> log_ready w'"
proof -
  assume "create_file env P C w = (Inr r, w')"
  then obtain wm where "log_status env (''FILE_CREATED: '' @ P) wm = (Inr (), w')"
    unfolding create_file_steps by blast
  from log_status_Inr [OF this] show ?thesis
    by (auto simp del: log_path_fs_update)
qed

lemma deploy_github_quiet:
  "shell env = quiet_shell rc \<Longrightarrow> log_ready w \<Longrightarrow>
   fst (deploy_project env ''github_pages'' w) =
     Inr (check_mark @ '' GitHub Pages Deployed: https://yourusername.github.io/your-repo'')"
  by (simp add: deploy_project_def bindE_def log_status_ready quiet_run_command [where rc = rc]
      set_deployment_url_def)

lemma src_paths:
  "parent_of (w0\<lparr>fs := f, clock := n\<rparr>) ''src/login.py'' = ''/repo/src''"
  "made_dirs (w0\<lparr>fs := f, clock := n\<rparr>) ''src/login.py'' = [[''repo''], [''repo'', ''src'']]"
  "slot (w0\<lparr>fs := f, clock := n\<rparr>) ''src/login.py'' = [''repo'', ''src'', ''login.py'']"
  "os_path_join (repo_path (w0\<lparr>fs := f, clock := n\<rparr>)) ''src/login.py'' = ''/repo/src/login.py''"
  "log_path (w0\<lparr>fs := f, clock := n\<rparr>) = [''repo'', ''ai_lifecycle.log'']"
  by (simp_all add: parent_of_def made_dirs_def slot_def w0_fields os_path_join_def
      os_path_dirname_def target_def start_dir_def components_def walk_step_def log_path_def
      log_name_def)

lemma add_feature_w0:
  "fst (try_body env0 ''ADD_FEATURE''
          \<lparr>strings = [''feature_name'' \<mapsto> ''login''],
           files = Some [(''src/login.py'', ''pass'')]\<rparr> w0) =
     Inr (Some (check_mark @ '' Feature '' @ [CHR 0x27] @ ''login'' @ [CHR 0x27] @
            '' added and deployed''))"
proof -
  define w1 where "w1 = w0\<lparr>fs := (fs w0)(log_path w0 \<mapsto>
      File (log_text w0 @ log_line env0 (clock w0) ''ADDING_FEATURE: login'')),
      clock := Suc (clock w0)\<rparr>"
  have s1: "log_status env0 ''ADDING_FEATURE: login'' w0 = (Inr (), w1)"
    by (simp add: log_status_ready w1_def)
  have c: "creatable w1 ''src/login.py''"
    unfolding w1_def
    by (simp add: creatable_def src_paths has_nul_def start_dir_def w0_fs fs0_def w0_fields
        log_name_def log_paths os_path_join_def)
  define w2 where "w2 = snd (create_file env0 ''src/login.py'' ''pass'' w1)"
  have s2: "create_file env0 ''src/login.py'' ''pass'' w1 =
      (Inr (check_mark @ '' Created: src/login.py''), w2)"
    by (simp add: w2_def create_file_creatable [OF c])
  from s2 have "log_ready w2"
    by (rule create_file_log_ready)
  then have "fst (deploy_project env0 ''github_pages'' w2) =
      Inr (check_mark @ '' GitHub Pages Deployed: https://yourusername.github.io/your-repo'')"
    by (intro deploy_github_quiet [where rc = 0]) simp_all
  then obtain w3 where s3: "deploy_project env0 ''github_pages'' w2 =
      (Inr (check_mark @ '' GitHub Pages Deployed: https://yourusername.github.io/your-repo''), w3)"
    by (cases "deploy_project env0 ''github_pages'' w2") simp
  show ?thesis
    by (simp add: try_body_def add_feature_def bindE_def s1 s2 s3)
qed





subsection \<open>Actions the dispatcher does not know\<close>

lemma run_command_w0:
  "run_command env0 c w0 =
     (Inr ''Command executed'',
      w0\<lparr>fs := (fs w0)(log_path w0 \<mapsto>
             File (log_text w0 @ log_line env0 1 (''COMMAND_RUN: '' @ c))),
         clock := 2\<rparr>)"
  by (simp add: quiet_run_command [where rc = 0] w0_fields eval_nat_numeral)

lemma distinct_dispatched_actions: "distinct dispatched_actions"
  by (simp add: dispatched_actions_def)

lemma no_nine_cover:
  "\<not> (\<exists>N. length N \<le> 9 \<and>
         (\<forall>a. a \<notin> set N \<longrightarrow> fst (execute_ai_instruction env a p w) = Returned None))"
proof
  assume "\<exists>N. length N \<le> 9 \<and>
      (\<forall>a. a \<notin> set N \<longrightarrow> fst (execute_ai_instruction env a p w) = Returned None)"
  then obtain N where n: "length N \<le> 9"
    and out: "\<And>a. a \<notin> set N \<Longrightarrow> fst (execute_ai_instruction env a p w) = Returned None"
    by blast
  have "set dispatched_actions \<subseteq> set N"
  proof
    fix a
    assume "a \<in> set dispatched_actions"
    then have "fst (execute_ai_instruction env a p w) \<noteq> Returned None"
      using execute_Some [of a env p w] by auto
    with out [of a] show "a \<in> set N"
      by (cases "a \<in> set N") simp_all
  qed
  then have "card (set dispatched_actions) \<le> card (set N)"
    by (intro card_mono) simp_all
  also have "\<dots> \<le> length N"
    by (rule card_length)
  finally have "card (set dispatched_actions) \<le> 9"
    using n by simp
  moreover have "card (set dispatched_actions) = 10"
    using distinct_card [OF distinct_dispatched_actions] by (simp add: dispatched_actions_def)
  ultimately show False
    by simp
qed

text \<open>
  C7, as the claim states it, counts nine recognized action strings. The dispatcher
  compares with ten; the nine that the program itself lists, in its banner, leave out
  \<open>RUN_COMMAND\<close>, which matches none of them and yet runs a handler, returns a
  string and appends a log record. Nor does any other choice of nine do: whichever
  nine strings are taken as the recognized ones, some action outside them gets a result
  that is not \<open>None\<close>.
\<close>

theorem run_command_not_in_banner:
  "length banner_actions = 9 \<and> ''RUN_COMMAND'' \<notin> set banner_actions \<and>
   fst (execute_ai_instruction env0 ''RUN_COMMAND''
          \<lparr>strings = [''command'' \<mapsto> ''ls''], files = None\<rparr> w0) =
     Returned (Some ''Command executed'') \<and>
   log_text (snd (execute_ai_instruction env0 ''RUN_COMMAND''
          \<lparr>strings = [''command'' \<mapsto> ''ls''], files = None\<rparr> w0)) =
     log_text w0 @ log_line env0 1 ''COMMAND_RUN: ls'' \<and>
   \<not> (\<exists>N. length N \<le> 9 \<and>
          (\<forall>a. a \<notin> set N \<longrightarrow>
             fst (execute_ai_instruction env0 a \<lparr>strings = Map.empty, files = None\<rparr> w0) =
               Returned None))"
  using no_nine_cover [of env0 "\<lparr>strings = Map.empty, files = None\<rparr>" w0]
  by (simp add: banner_actions_def execute_ai_instruction_def try_body_def run_command_w0
      bindE_def log_text_def log_path_def file_text_def)

text \<open>
  C7, amended. For every action identifier that is none of the ten strings the
  dispatcher compares with, \<open>execute_ai_instruction\<close> runs no handler, leaves the
  world as it is and returns \<open>None\<close>, not an \<open>Error:\<close> string.
\<close>

theorem unknown_action_returns_nothing:
  "a \<notin> set dispatched_actions \<Longrightarrow> execute_ai_instruction env a p w = (Returned None, w)"
  by (simp add: dispatched_actions_def execute_ai_instruction_def try_body_def returnE_def)

theorem unknown_action_returns_nothing_witness:
  "''DELETE_REPO'' \<notin> set dispatched_actions \<and>
   execute_ai_instruction env0 ''DELETE_REPO'' \<lparr>strings = Map.empty, files = None\<rparr> w0 =
     (Returned None, w0)"
  using unknown_action_returns_nothing [of "''DELETE_REPO''" env0
      "\<lparr>strings = Map.empty, files = None\<rparr>" w0]
  by (simp add: dispatched_actions_def)

end
